theory Spec2Isabelle
  imports Complex_Main "HOL-Library.Multiset"
begin

section \<open>Text helpers of the JavaScript runtime\<close>

text \<open>
  A JavaScript string is a sequence of UTF-16 code units. The values of request fields, which
  the code trims, are kept as lists of code units; \<open>units\<close> gives the code units of a text
  written in the program. \<^verbatim>\<open>String.prototype.trim\<close> removes white space and line terminators
  from both ends: TAB, LF, VT, FF, CR, SPACE, NO-BREAK SPACE (U+00A0), U+1680, U+2000 to
  U+200A, LINE SEPARATOR (U+2028), PARAGRAPH SEPARATOR (U+2029), U+202F, U+205F, U+3000 and
  the byte order mark U+FEFF.
\<close>

type_synonym code_unit = nat

type_synonym js_string = "code_unit list"

definition units :: "string \<Rightarrow> js_string" where
  "units s = map of_char s"

definition is_space :: "code_unit \<Rightarrow> bool" where
  "is_space c =
     (c \<in> set [0x0009, 0x000A, 0x000B, 0x000C, 0x000D, 0x0020, 0x00A0, 0x1680, 0x2028, 0x2029,
               0x202F, 0x205F, 0x3000, 0xFEFF] \<or> (0x2000 \<le> c \<and> c \<le> 0x200A))"

definition trim :: "js_string \<Rightarrow> js_string" where
  "trim s = rev (dropWhile is_space (rev (dropWhile is_space s)))"

text \<open>
  \<^verbatim>\<open>toUpperCase\<close> and \<^verbatim>\<open>toLowerCase\<close> on code units: the letters a to z (0x61 to 0x7A) and A to Z
  (0x41 to 0x5A) are mapped onto each other and every other code unit is kept. The results are
  only ever compared with words in those letters and digits ("OUT", "all", "true", "yes", ...),
  and beyond these letters no character has an upper-case form made of O, U and T, nor a
  lower-case form made of letters of the words compared with.
\<close>

definition upper_unit :: "code_unit \<Rightarrow> code_unit" where
  "upper_unit c = (if 0x61 \<le> c \<and> c \<le> 0x7A then c - 0x20 else c)"

definition lower_unit :: "code_unit \<Rightarrow> code_unit" where
  "lower_unit c = (if 0x41 \<le> c \<and> c \<le> 0x5A then c + 0x20 else c)"

definition toUpperCase :: "js_string \<Rightarrow> js_string" where
  "toUpperCase s = map upper_unit s"

definition toLowerCase_units :: "js_string \<Rightarrow> js_string" where
  "toLowerCase_units s = map lower_unit s"

text \<open>
  Permission names and roles come from the database and the token and are kept as character
  lists; \<^verbatim>\<open>toLowerCase\<close> on them maps the letters A to Z.
\<close>

definition lower_letters :: string where
  "lower_letters = ''abcdefghijklmnopqrstuvwxyz''"

definition upper_letters :: string where
  "upper_letters = ''ABCDEFGHIJKLMNOPQRSTUVWXYZ''"

definition lower_char :: "char \<Rightarrow> char" where
  "lower_char c = (case map_of (zip upper_letters lower_letters) c of Some l \<Rightarrow> l | None \<Rightarrow> c)"

definition toLowerCase :: "string \<Rightarrow> string" where
  "toLowerCase s = map lower_char s"

section \<open>Attendance state machine: punch validation\<close>

datatype punch_type = PUNCH_IN | PUNCH_OUT

type_synonym timestamp = nat

text \<open>
  The attendance record as \<^verbatim>\<open>fetchAttendanceRecord\<close> returns it. The two punch times are
  \<^verbatim>\<open>TO_CHAR(..., 'HH12:MI AM')\<close> of a timestamp column: NULL stays null and every other value is a
  non-empty text, hence truthy; the model keeps the timestamp. \<^verbatim>\<open>date\<close> is a day number.
  Image, geo and address columns are carried through unchanged by the code and are left out.
\<close>

record attendance =
  attendance_id :: nat
  date :: "int option"
  punch_in_time :: "timestamp option"
  punch_out_time :: "timestamp option"
  emp_id :: nat
  emp_code :: "string option"
  employee_name :: "string option"
  designation_name :: "string option"
  ward_id :: "nat option"
  ward_name :: "string option"

record validation =
  status :: nat
  error :: string

definition validatePunchAttempt :: "attendance option \<Rightarrow> punch_type \<Rightarrow> validation option" where
  "validatePunchAttempt att punchType =
     (case att of
        None \<Rightarrow>
          Some \<lparr> status = (if punchType = PUNCH_OUT then 400 else 404),
                 error = (if punchType = PUNCH_OUT then ''Must punch in first''
                          else ''Attendance record not found'') \<rparr>
      | Some a \<Rightarrow>
          if punchType = PUNCH_IN \<and> punch_in_time a \<noteq> None then
            Some \<lparr> status = 400, error = ''Already punched in today'' \<rparr>
          else if punchType = PUNCH_OUT \<and> punch_out_time a \<noteq> None then
            Some \<lparr> status = 400, error = ''Already punched out today'' \<rparr>
          else if punchType = PUNCH_OUT \<and> punch_in_time a = None then
            Some \<lparr> status = 400, error = ''Must punch in first'' \<rparr>
          else None)"

text \<open>
  Normalisation of the \<^verbatim>\<open>punch_type\<close> form field in the face-attendance route:
  \<^verbatim>\<open>(rawPunchType || "").toString().trim().toUpperCase()\<close>, then OUT only on equality with "OUT".
  The argument is the text of the field, as code units; a missing field is \<open>None\<close>.
\<close>

definition normalizedPunchType :: "js_string option \<Rightarrow> js_string" where
  "normalizedPunchType rawPunchType =
     toUpperCase (trim (case rawPunchType of None \<Rightarrow> [] | Some s \<Rightarrow> s))"

definition facePunchType :: "js_string option \<Rightarrow> punch_type" where
  "facePunchType rawPunchType =
     (if normalizedPunchType rawPunchType = units ''OUT'' then PUNCH_OUT else PUNCH_IN)"


section \<open>Group mode: the padded crop box of a detected face\<close>

text \<open>
  The bounding box of the face service holds ratios of the image size; they are numbers and are
  modelled as reals (a box whose fields are missing or not finite is outside the model).
  \<^verbatim>\<open>Math.round\<close> rounds to the nearest integer, a tie towards plus infinity. The image
  dimensions come from the image metadata and are integers.
\<close>

record bounding_box =
  Width :: real
  Height :: real
  Left :: real
  Top :: real

record crop_region =
  left :: int
  top :: int
  width :: int
  height :: int

definition Math_round :: "real \<Rightarrow> int" where
  "Math_round x = \<lfloor>x + 1 / 2\<rfloor>"

definition default_paddingRatio :: real where
  "default_paddingRatio = 25 / 100"

definition computeCropRegion ::
  "bounding_box option \<Rightarrow> int \<Rightarrow> int \<Rightarrow> real \<Rightarrow> crop_region option" where
  "computeCropRegion boundingBox imageWidth imageHeight paddingRatio =
     (case boundingBox of
        None \<Rightarrow> None
      | Some bb \<Rightarrow>
          if imageWidth \<le> 0 \<or> imageHeight \<le> 0 then None
          else
            let baseWidth = max (Math_round (Width bb * of_int imageWidth)) 1;
                baseHeight = max (Math_round (Height bb * of_int imageHeight)) 1;
                padX = Math_round (of_int baseWidth * paddingRatio);
                padY = Math_round (of_int baseHeight * paddingRatio);
                l = max (Math_round (Left bb * of_int imageWidth) - padX) 0;
                t = max (Math_round (Top bb * of_int imageHeight) - padY) 0;
                w = min (imageWidth - l) (baseWidth + padX * 2);
                h = min (imageHeight - t) (baseHeight + padY * 2)
            in if w \<le> 0 \<or> h \<le> 0 then None
               else Some \<lparr> left = l, top = t, width = w, height = h \<rparr>)"

section \<open>Permission resolver and city scope\<close>

text \<open>
  The tables the resolver reads. \<^verbatim>\<open>user_city_access\<close> is the table of explicit city grants
  (\<^verbatim>\<open>fetchUserCityAccess\<close> reads it); the city scope middleware below never does.
\<close>

record permission =
  p_id :: nat
  p_module :: string
  p_action :: string

record role_permission =
  rp_role_id :: nat
  rp_permission_id :: nat

record user_role =
  ur_user_id :: nat
  ur_role_id :: nat

record user_permission =
  up_user_id :: nat
  up_permission_id :: nat
  up_city_id :: "int option"

record user_city_access_row =
  uca_user_id :: nat
  uca_city_id :: int

record rbac_db =
  permissions :: "permission list"
  role_permissions :: "role_permission list"
  user_roles :: "user_role list"
  user_permissions :: "user_permission list"
  user_city_access :: "user_city_access_row list"

text \<open>A row of the resolver's query: \<^verbatim>\<open>module\<close>, \<^verbatim>\<open>action\<close>, \<^verbatim>\<open>city_id\<close> (NULL is \<open>None\<close>).\<close>

record permission_row =
  row_module :: string
  row_action :: string
  row_city_id :: "int option"

text \<open>
  The query of \<^verbatim>\<open>fetchUserPermissions\<close>: the permissions of the user's roles with a NULL city,
  \<^verbatim>\<open>UNION ALL\<close> the user's direct permissions with their city.
\<close>

definition role_permission_rows :: "rbac_db \<Rightarrow> nat \<Rightarrow> permission_row list" where
  "role_permission_rows db userId =
     [\<lparr> row_module = p_module p, row_action = p_action p, row_city_id = None \<rparr>.
        p \<leftarrow> permissions db, rp \<leftarrow> role_permissions db, rp_permission_id rp = p_id p,
        ur \<leftarrow> user_roles db, ur_role_id ur = rp_role_id rp, ur_user_id ur = userId]"

definition user_permission_rows :: "rbac_db \<Rightarrow> nat \<Rightarrow> permission_row list" where
  "user_permission_rows db userId =
     [\<lparr> row_module = p_module p, row_action = p_action p, row_city_id = up_city_id up \<rparr>.
        p \<leftarrow> permissions db, up \<leftarrow> user_permissions db, up_permission_id up = p_id p,
        up_user_id up = userId]"

definition permission_query :: "rbac_db \<Rightarrow> nat \<Rightarrow> permission_row list" where
  "permission_query db userId = role_permission_rows db userId @ user_permission_rows db userId"

text \<open>
  A scope \<^verbatim>\<open>{ all, ids }\<close>. The JavaScript \<^verbatim>\<open>Set\<close> of ids keeps insertion order and no
  duplicates: a list, extended by \<open>set_add\<close>.
\<close>

record scope =
  all :: bool
  ids :: "int list"

definition set_add :: "'a \<Rightarrow> 'a list \<Rightarrow> 'a list" where
  "set_add x xs = (if x \<in> set xs then xs else xs @ [x])"

record payload =
  permissionSet :: "string list"
  cityMap :: "string \<rightharpoonup> scope"

definition row_key :: "permission_row \<Rightarrow> string" where
  "row_key row = toLowerCase (row_module row @ '':'' @ row_action row)"

text \<open>The body of \<^verbatim>\<open>rows.forEach\<close>: one row folded into the permission set and the city map.\<close>

definition add_row :: "payload \<Rightarrow> permission_row \<Rightarrow> payload" where
  "add_row acc row =
     (let key = row_key row;
          m = (case cityMap acc key of
                 None \<Rightarrow> (cityMap acc)(key \<mapsto> \<lparr> all = False, ids = [] \<rparr>)
               | Some _ \<Rightarrow> cityMap acc);
          sc = (case m key of None \<Rightarrow> \<lparr> all = False, ids = [] \<rparr> | Some sc \<Rightarrow> sc)
      in \<lparr> permissionSet = set_add key (permissionSet acc),
           cityMap =
             (case row_city_id row of
                None \<Rightarrow> m(key \<mapsto> \<lparr> all = True, ids = [] \<rparr>)
              | Some c \<Rightarrow> if \<not> all sc then m(key \<mapsto> sc\<lparr> ids := set_add c (ids sc) \<rparr>) else m) \<rparr>)"

definition empty_payload :: payload where
  "empty_payload = \<lparr> permissionSet = [], cityMap = Map.empty \<rparr>"

definition build_payload :: "permission_row list \<Rightarrow> payload" where
  "build_payload rows = foldl add_row empty_payload rows"

text \<open>
  What the permission resolver's contract says of one key \<open>k\<close> of the city map, given the
  rows: no entry when no row has the key; else \<^verbatim>\<open>all\<close> exactly when a row of the key has a
  null city, no ids then, and otherwise the ids are the cities of the rows of the key.
\<close>

definition scope_of_rows :: "permission_row list \<Rightarrow> string \<Rightarrow> scope option \<Rightarrow> bool" where
  "scope_of_rows rows k s =
     (case s of
        None \<Rightarrow> (\<forall>r\<in>set rows. row_key r \<noteq> k)
      | Some sc \<Rightarrow>
          (\<exists>r\<in>set rows. row_key r = k) \<and>
          (all sc \<longleftrightarrow> (\<exists>r\<in>set rows. row_key r = k \<and> row_city_id r = None)) \<and>
          (all sc \<longrightarrow> ids sc = []) \<and>
          (\<not> all sc \<longrightarrow>
             set (ids sc) = {c. \<exists>r\<in>set rows. row_key r = k \<and> row_city_id r = Some c}) \<and>
          distinct (ids sc))"

text \<open>
  The in-process cache: a map from \<^verbatim>\<open>`${userId}:${cacheVersion}`\<close>, here the pair, to the
  payload, and the version counter.
\<close>

record perm_cache =
  permissionCache :: "nat \<times> nat \<rightharpoonup> payload"
  cacheVersion :: nat

definition invalidatePermissionCache :: "perm_cache \<Rightarrow> perm_cache" where
  "invalidatePermissionCache c = \<lparr> permissionCache = Map.empty, cacheVersion = cacheVersion c + 1 \<rparr>"


definition fetchUserPermissions :: "rbac_db \<Rightarrow> perm_cache \<Rightarrow> nat option \<Rightarrow> payload \<times> perm_cache" where
  "fetchUserPermissions db c userId =
     (case userId of
        None \<Rightarrow> (empty_payload, c)
      | Some uid \<Rightarrow>
          if uid = 0 then (empty_payload, c)
          else
            (case permissionCache c (uid, cacheVersion c) of
               Some p \<Rightarrow> (p, c)
             | None \<Rightarrow>
                 let p = build_payload (permission_query db uid)
                 in (p, c\<lparr> permissionCache := (permissionCache c)((uid, cacheVersion c) \<mapsto> p) \<rparr>)))"



text \<open>The authenticated user of the request: \<^verbatim>\<open>{ user_id, role }\<close> from the token.\<close>

record user =
  user_id :: "nat option"
  role :: "string option"



text \<open>
  The cache is coherent with the tables when every entry of the current version is the payload
  of the current query result. Writes to the tables go with \<^verbatim>\<open>invalidatePermissionCache\<close>.
\<close>

definition cache_coherent :: "rbac_db \<Rightarrow> perm_cache \<Rightarrow> bool" where
  "cache_coherent db c =
     (\<forall>uid p. permissionCache c (uid, cacheVersion c) = Some p \<longrightarrow>
        p = build_payload (permission_query db uid))"








definition example_rows_a :: "permission_row list" where
  "example_rows_a =
     [\<lparr> row_module = ''City'', row_action = ''view'', row_city_id = Some 3 \<rparr>,
      \<lparr> row_module = ''city'', row_action = ''View'', row_city_id = Some 5 \<rparr>,
      \<lparr> row_module = ''zone'', row_action = ''view'', row_city_id = None \<rparr>,
      \<lparr> row_module = ''zone'', row_action = ''view'', row_city_id = Some 3 \<rparr>]"

definition example_rows_b :: "permission_row list" where
  "example_rows_b =
     [\<lparr> row_module = ''zone'', row_action = ''view'', row_city_id = Some 3 \<rparr>,
      \<lparr> row_module = ''city'', row_action = ''View'', row_city_id = Some 5 \<rparr>,
      \<lparr> row_module = ''zone'', row_action = ''view'', row_city_id = None \<rparr>,
      \<lparr> row_module = ''City'', row_action = ''view'', row_city_id = Some 3 \<rparr>]"

section \<open>Report rendering: CSV\<close>

text \<open>
  A cell of a result row is a text or null; a row maps column keys to cells (a missing key is
  null as well). A header descriptor has a key, an optional label and an optional formatter.
\<close>

type_synonym cell = "string option"
type_synonym report_row = "string \<Rightarrow> cell"

record header =
  key :: string
  label :: "string option"
  formatter :: "(cell \<Rightarrow> report_row \<Rightarrow> cell) option"

text \<open>
  \<^verbatim>\<open>csvEscapeValue\<close>: null gives two quotes; a text is put between quotes with every quote in it
  doubled (\<^verbatim>\<open>replace(/"/g, '""')\<close>).
\<close>

definition dquote :: char where "dquote = CHR 0x22"

definition double_quotes :: "string \<Rightarrow> string" where
  "double_quotes s = concat (map (\<lambda>c. if c = dquote then [dquote, dquote] else [c]) s)"

definition csvEscapeValue :: "cell \<Rightarrow> string" where
  "csvEscapeValue v =
     (case v of
        None \<Rightarrow> [dquote, dquote]
      | Some stringValue \<Rightarrow> [dquote] @ double_quotes stringValue @ [dquote])"

text \<open>\<^verbatim>\<open>Array.prototype.join\<close>.\<close>

fun join :: "string \<Rightarrow> string list \<Rightarrow> string" where
  "join sep [] = []"
| "join sep [x] = x"
| "join sep (x # y # ys) = x @ sep @ join sep (y # ys)"

text \<open>
  \<^verbatim>\<open>buildCsvDocument\<close>: the header line shows \<^verbatim>\<open>header.label || header.key\<close>; a data cell shows the
  formatter's result, or the row's value, with null replaced by the empty text. Without headers
  it throws; without rows the document is the header line and a line feed.
\<close>

definition header_text :: "header \<Rightarrow> string" where
  "header_text h = (case label h of None \<Rightarrow> key h | Some l \<Rightarrow> if l = [] then key h else l)"

definition rawValue :: "header \<Rightarrow> report_row \<Rightarrow> cell" where
  "rawValue h row = (case formatter h of Some f \<Rightarrow> f (row (key h)) row | None \<Rightarrow> row (key h))"

definition cell_text :: "header \<Rightarrow> report_row \<Rightarrow> string" where
  "cell_text h row = (case rawValue h row of None \<Rightarrow> [] | Some v \<Rightarrow> v)"

datatype csv_error = CSV_headers_required

definition buildCsvDocument :: "report_row list \<Rightarrow> header list \<Rightarrow> csv_error + string" where
  "buildCsvDocument rows headers =
     (if headers = [] then Inl CSV_headers_required
      else
        let headerLine = join '','' (map (\<lambda>h. csvEscapeValue (Some (header_text h))) headers)
        in if rows = [] then Inr (headerLine @ [CHR 0x0A])
           else
             let dataLines =
                   map (\<lambda>row. join '','' (map (\<lambda>h. csvEscapeValue (Some (cell_text h row))) headers)) rows
             in Inr (join [CHR 0x0A] (headerLine # dataLines)))"

text \<open>
  The reader against which the document is compared: RFC 4180 records of comma-separated
  fields, a field either unquoted or between quotes with doubled quotes inside, records ended
  by LF or CR LF, the last record with or without a line break. \<open>csv_records st f r rs\<close> holds
  the state, the field read so far, the fields of the current record and the records read.
\<close>

datatype csv_state = FieldStart | Unquoted | Quoted | QuoteSeen

fun csv_records ::
  "csv_state \<Rightarrow> string \<Rightarrow> string list \<Rightarrow> string list list \<Rightarrow> string \<Rightarrow> string list list option" where
  "csv_records FieldStart f r rs [] = Some (if r = [] then rs else rs @ [r @ [f]])"
| "csv_records Unquoted f r rs [] = Some (rs @ [r @ [f]])"
| "csv_records Quoted f r rs [] = None"
| "csv_records QuoteSeen f r rs [] = Some (rs @ [r @ [f]])"
| "csv_records Quoted f r rs (c # cs) =
     (if c = dquote then csv_records QuoteSeen f r rs cs else csv_records Quoted (f @ [c]) r rs cs)"
| "csv_records QuoteSeen f r rs (c # cs) =
     (if c = dquote then csv_records Quoted (f @ [dquote]) r rs cs
      else if c = CHR '','' then csv_records FieldStart [] (r @ [f]) rs cs
      else if c = CHR 0x0A then csv_records FieldStart [] [] (rs @ [r @ [f]]) cs
      else if c = CHR 0x0D then
        (case cs of
           d # ds \<Rightarrow> if d = CHR 0x0A then csv_records FieldStart [] [] (rs @ [r @ [f]]) ds else None
         | [] \<Rightarrow> None)
      else None)"
| "csv_records st f r rs (c # cs) =
     (if c = dquote then (if st = FieldStart then csv_records Quoted [] r rs cs else None)
      else if c = CHR '','' then csv_records FieldStart [] (r @ [f]) rs cs
      else if c = CHR 0x0A then csv_records FieldStart [] [] (rs @ [r @ [f]]) cs
      else if c = CHR 0x0D then
        (case cs of
           d # ds \<Rightarrow> if d = CHR 0x0A then csv_records FieldStart [] [] (rs @ [r @ [f]]) ds else None
         | [] \<Rightarrow> None)
      else csv_records Unquoted (f @ [c]) r rs cs)"

definition parse_csv :: "string \<Rightarrow> string list list option" where
  "parse_csv doc = csv_records FieldStart [] [] [] doc"

definition example_headers :: "header list" where
  "example_headers =
     [\<lparr> key = ''name'', label = Some ''Employee Name'', formatter = None \<rparr>,
      \<lparr> key = ''addr'', label = None, formatter = None \<rparr>]"

definition example_report_rows :: "report_row list" where
  "example_report_rows =
     [(\<lambda>k. if k = ''name'' then Some (''Pat '' @ [dquote] @ ''PJ'' @ [dquote] @ '' Roy'')
           else if k = ''addr'' then Some (''12, Main'' @ [CHR 0x0A] @ ''Indore'') else None),
      (\<lambda>k. if k = ''name'' then Some ''Lee'' else None)]"

section \<open>Report filters and scope injection\<close>

text \<open>Decimal rendering of a count, as a template literal does.\<close>

fun digits :: "nat \<Rightarrow> string" where
  "digits n =
     (if n < 10 then [''0123456789'' ! n]
      else digits (n div 10) @ [''0123456789'' ! (n mod 10)])"

text \<open>
  The request query maps a name to its text (code units), if present. A bound parameter is a
  text, a number or the array of city ids. The JavaScript \<^verbatim>\<open>Number\<close> conversion is a parameter \<open>toNumber\<close> of
  the builders: it returns the number, or \<open>None\<close> when the result is not finite.
\<close>

type_synonym query = "string \<rightharpoonup> js_string"

datatype 'n param = PText js_string | PNum 'n | PIds "int list"

datatype 'n meta = MText js_string | MNum 'n | MBool bool | MIds "int list"

record 'n filter_state =
  filters :: "string list"
  params :: "'n param list"
  metadata :: "string \<rightharpoonup> 'n meta"

record 'n filter_result =
  whereClause :: string
  result_params :: "'n param list"
  result_metadata :: "string \<rightharpoonup> 'n meta"

definition placeholder :: "'n param list \<Rightarrow> string" where
  "placeholder ps = ''$'' @ digits (length ps)"

definition or_empty :: "js_string option \<Rightarrow> js_string" where
  "or_empty v = (case v of None \<Rightarrow> [] | Some s \<Rightarrow> s)"

definition first_truthy :: "js_string option list \<Rightarrow> js_string" where
  "first_truthy vs = (case filter (\<lambda>s. s \<noteq> []) (map or_empty vs) of [] \<Rightarrow> [] | s # _ \<Rightarrow> s)"

definition parseIntegerParam :: "(js_string \<Rightarrow> 'n option) \<Rightarrow> js_string option \<Rightarrow> 'n option" where
  "parseIntegerParam toNumber v =
     (case v of
        None \<Rightarrow> None
      | Some s \<Rightarrow> if s = [] \<or> toLowerCase_units (trim s) = units ''all'' then None else toNumber s)"

definition parseBooleanFlag :: "js_string option \<Rightarrow> bool option" where
  "parseBooleanFlag v =
     (case v of
        None \<Rightarrow> None
      | Some s \<Rightarrow>
          let normalized = toLowerCase_units (trim s)
          in if normalized = [] then None
             else if normalized \<in> set (map units [''true'', ''1'', ''yes'', ''y'']) then Some True
             else if normalized \<in> set (map units [''false'', ''0'', ''no'', ''n'']) then Some False
             else None)"

definition addTextFilter ::
  "js_string option \<Rightarrow> (string \<Rightarrow> string) \<Rightarrow> string \<Rightarrow> bool \<Rightarrow> 'n filter_state \<Rightarrow> 'n filter_state" where
  "addTextFilter raw builder metaKey wildcard st =
     (let v = trim (or_empty raw)
      in if v = [] then st
         else
           let finalValue = (if wildcard then units ''%'' @ v @ units ''%'' else v);
               ps = params st @ [PText finalValue]
           in \<lparr> filters = filters st @ [builder (placeholder ps)],
                params = ps,
                metadata = (metadata st)(metaKey \<mapsto> MText v) \<rparr>)"

definition addNumericFilter ::
  "(js_string \<Rightarrow> 'n option) \<Rightarrow> js_string option \<Rightarrow> (string \<Rightarrow> string) \<Rightarrow> string \<Rightarrow>
     'n filter_state \<Rightarrow> 'n filter_state" where
  "addNumericFilter toNumber raw builder metaKey st =
     (case parseIntegerParam toNumber raw of
        None \<Rightarrow> st
      | Some v \<Rightarrow>
          let ps = params st @ [PNum v]
          in \<lparr> filters = filters st @ [builder (placeholder ps)],
               params = ps,
               metadata = (metadata st)(metaKey \<mapsto> MNum v) \<rparr>)"

text \<open>
  The inline blocks of the builders: the \<^verbatim>\<open>search\<close> and \<^verbatim>\<open>location\<close> terms, the punch flags, and the
  city scope block that both builders end with.
\<close>

definition addSearchFilter ::
  "js_string option \<Rightarrow> (string \<Rightarrow> string) \<Rightarrow> string \<Rightarrow> 'n filter_state \<Rightarrow> 'n filter_state" where
  "addSearchFilter raw builder metaKey st =
     (let searchTerm = trim (or_empty raw)
      in if searchTerm = [] then st
         else
           let ps = params st @ [PText (units ''%'' @ searchTerm @ units ''%'')]
           in \<lparr> filters = filters st @ [builder (placeholder ps)],
                params = ps,
                metadata = (metadata st)(metaKey \<mapsto> MText searchTerm) \<rparr>)"

definition addFlagFilter ::
  "js_string option \<Rightarrow> string \<Rightarrow> string \<Rightarrow> 'n filter_state \<Rightarrow> 'n filter_state" where
  "addFlagFilter raw column metaKey st =
     (case parseBooleanFlag raw of
        None \<Rightarrow> st
      | Some b \<Rightarrow>
          st\<lparr> filters := filters st @ [column @ (if b then '' IS NOT NULL'' else '' IS NULL'')],
              metadata := (metadata st)(metaKey \<mapsto> MBool b) \<rparr>)"

definition addCityScopeFilter :: "scope option \<Rightarrow> 'n filter_state \<Rightarrow> 'n filter_state" where
  "addCityScopeFilter cityScope st =
     (case cityScope of
        None \<Rightarrow> st
      | Some sc \<Rightarrow>
          if all sc then st
          else if ids sc = [] then st\<lparr> filters := filters st @ [''1 = 0''] \<rparr>
          else
            let ps = params st @ [PIds (ids sc)]
            in \<lparr> filters = filters st @ [''c.city_id = ANY('' @ placeholder ps @ '')''],
                 params = ps,
                 metadata = (metadata st)(''city_scope'' \<mapsto> MIds (ids sc)) \<rparr>)"

definition finishFilters :: "'n filter_state \<Rightarrow> 'n filter_result" where
  "finishFilters st =
     \<lparr> whereClause = (if filters st = [] then [] else ''WHERE '' @ join '' AND '' (filters st)),
       result_params = params st,
       result_metadata = metadata st \<rparr>"

definition empty_filter_state :: "'n filter_state" where
  "empty_filter_state = \<lparr> filters = [], params = [], metadata = Map.empty \<rparr>"

definition addDateFilters :: "query \<Rightarrow> 'n filter_state \<Rightarrow> 'n filter_state" where
  "addDateFilters query st =
     (let dateText = trim (or_empty (query ''date''));
          startDate = trim (first_truthy [query ''start_date'', query ''date_from'',
                                          query ''from_date'', query ''from'']);
          endDate = trim (first_truthy [query ''end_date'', query ''date_to'',
                                        query ''to_date'', query ''to''])
      in if dateText \<noteq> [] then addTextFilter (Some dateText) (\<lambda>ph. ''a.date = '' @ ph) ''date'' False st
         else
           (let st1 = (if startDate \<noteq> []
                       then addTextFilter (Some startDate) (\<lambda>ph. ''a.date >= '' @ ph) ''start_date'' False st
                       else st)
            in if endDate \<noteq> []
               then addTextFilter (Some endDate) (\<lambda>ph. ''a.date <= '' @ ph) ''end_date'' False st1
               else st1))"

definition buildAttendanceFilters ::
  "(js_string \<Rightarrow> 'n option) \<Rightarrow> query \<Rightarrow> string \<Rightarrow> scope option \<Rightarrow> 'n filter_result" where
  "buildAttendanceFilters toNumber query locationExpression cityScope =
     finishFilters
      (addCityScopeFilter cityScope
      (addFlagFilter (query ''has_punch_out'') ''a.punch_out_time'' ''has_punch_out''
      (addFlagFilter (query ''has_punch_in'') ''a.punch_in_time'' ''has_punch_in''
      (addSearchFilter (query ''location'')
         (\<lambda>ph. ''('' @ locationExpression @ '' ILIKE '' @ ph @ '')'') ''location''
      (addSearchFilter (query ''search'')
         (\<lambda>ph. ''(e.name ILIKE '' @ ph @ '' OR e.emp_code ILIKE '' @ ph @ '')'') ''search''
      (addTextFilter (query ''supervisor_name'')
         (\<lambda>ph. ''COALESCE(supervisor.name, '' @ [CHR 0x27, CHR 0x27] @ '') ILIKE '' @ ph)
         ''supervisor_name'' True
      (addTextFilter (query ''city_name'') (\<lambda>ph. ''c.city_name ILIKE '' @ ph) ''city_name'' True
      (addTextFilter (query ''ward_name'') (\<lambda>ph. ''w.ward_name ILIKE '' @ ph) ''ward_name'' True
      (addTextFilter (query ''zone_name'') (\<lambda>ph. ''z.zone_name ILIKE '' @ ph) ''zone_name'' True
      (addTextFilter (query ''emp_code'') (\<lambda>ph. ''e.emp_code = '' @ ph) ''emp_code'' False
      (addNumericFilter toNumber (query ''employee_id'') (\<lambda>ph. ''a.emp_id = '' @ ph) ''employee_id''
      (addNumericFilter toNumber (query ''supervisor_id'')
         (\<lambda>ph. ''supervisor.user_id = '' @ ph) ''supervisor_id''
      (addNumericFilter toNumber (query ''city_id'') (\<lambda>ph. ''c.city_id = '' @ ph) ''city_id''
      (addNumericFilter toNumber (query ''ward_id'') (\<lambda>ph. ''w.ward_id = '' @ ph) ''ward_id''
      (addNumericFilter toNumber (query ''zone_id'') (\<lambda>ph. ''z.zone_id = '' @ ph) ''zone_id''
      (addDateFilters query empty_filter_state))))))))))))))))"

definition buildSupervisorSummaryFilters ::
  "(js_string \<Rightarrow> 'n option) \<Rightarrow> query \<Rightarrow> scope option \<Rightarrow> 'n filter_result" where
  "buildSupervisorSummaryFilters toNumber query cityScope =
     finishFilters
      (addCityScopeFilter cityScope
      (addTextFilter (query ''supervisor_name'')
         (\<lambda>ph. ''COALESCE(supervisor.name, '' @ [CHR 0x27, CHR 0x27] @ '') ILIKE '' @ ph)
         ''supervisor_name'' False
      (addNumericFilter toNumber (query ''supervisor_id'')
         (\<lambda>ph. ''supervisor.user_id = '' @ ph) ''supervisor_id''
      (addNumericFilter toNumber (query ''ward_id'') (\<lambda>ph. ''w.ward_id = '' @ ph) ''ward_id''
      (addNumericFilter toNumber (query ''zone_id'') (\<lambda>ph. ''z.zone_id = '' @ ph) ''zone_id''
      (addNumericFilter toNumber (query ''city_id'') (\<lambda>ph. ''c.city_id = '' @ ph) ''city_id''
         empty_filter_state))))))"


text \<open>
  What scope injection promises of the result \<open>r\<close> for a scope that is not \<^verbatim>\<open>all\<close>, against the
  result \<open>r0\<close> of the same request without a scope: the WHERE clause is that of \<open>r0\<close> with one more
  condition, \<^verbatim>\<open>1 = 0\<close> for an empty scope and else \<^verbatim>\<open>c.city_id = ANY($N)\<close>, where the ids are
  the N-th and last bound parameter.
\<close>

definition appended_scope_clause :: "'n filter_result \<Rightarrow> scope \<Rightarrow> 'n filter_result \<Rightarrow> bool" where
  "appended_scope_clause r0 sc r =
     (let clause = (if ids sc = [] then ''1 = 0''
                    else ''c.city_id = ANY($'' @ digits (length (result_params r0) + 1) @ '')'')
      in whereClause r = (if whereClause r0 = [] then ''WHERE '' @ clause
                          else whereClause r0 @ '' AND '' @ clause) \<and>
         result_params r = (if ids sc = [] then result_params r0
                            else result_params r0 @ [PIds (ids sc)]))"

definition example_query :: query where
  "example_query =
     [''date'' \<mapsto> units '' 2023-06-15 '', ''zone_id'' \<mapsto> units ''3'',
      ''has_punch_in'' \<mapsto> units ''Yes'']"

definition example_toNumber :: "js_string \<Rightarrow> int option" where
  "example_toNumber s = (if s = units ''3'' then Some 3 else None)"

section \<open>Attendance records: lookup, carry-forward and creation\<close>

text \<open>
  The tables behind the attendance queries. A date is a day number (the text
  \<^verbatim>\<open>YYYY-MM-DD\<close> cast to \<^verbatim>\<open>date\<close> by the database), so that \<^verbatim>\<open>$2::date - INTERVAL '1 day'\<close> is the
  day before. \<open>next_attendance_id\<close> is the sequence of the primary key.
\<close>

record attendance_row =
  a_attendance_id :: nat
  a_emp_id :: nat
  a_date :: int
  a_ward_id :: "nat option"
  a_punch_in_time :: "timestamp option"
  a_punch_out_time :: "timestamp option"

record employee_row =
  e_emp_id :: nat
  e_emp_code :: string
  e_name :: string
  e_designation_id :: "nat option"
  e_ward_id :: "nat option"

record designation_row =
  d_designation_id :: nat
  d_designation_name :: string

record ward_row =
  w_ward_id :: nat
  w_ward_name :: string


text \<open>
  \<^verbatim>\<open>fetchAttendanceRecord\<close>: the attendance row with its employee, the employee's designation and the
  employee's ward (inner joins), the rows that satisfy the WHERE condition on the attendance
  columns, \<^verbatim>\<open>ORDER BY a.date DESC, a.attendance_id DESC LIMIT 1\<close>, and \<^verbatim>\<open>rows[0] || null\<close>.
\<close>

type_synonym joined_row = "attendance_row \<times> employee_row \<times> designation_row \<times> ward_row"


definition select_fields :: "joined_row \<Rightarrow> attendance" where
  "select_fields j =
     (case j of (a, e, d, w) \<Rightarrow>
        \<lparr> attendance_id = a_attendance_id a, date = Some (a_date a),
          punch_in_time = a_punch_in_time a, punch_out_time = a_punch_out_time a,
          emp_id = e_emp_id e, emp_code = Some (e_emp_code e), employee_name = Some (e_name e),
          designation_name = Some (d_designation_name d),
          ward_id = Some (w_ward_id w), ward_name = Some (w_ward_name w) \<rparr>)"















section \<open>Face attendance in group mode\<close>

text \<open>
  One entry of \<^verbatim>\<open>results\<close> per detected face. The status \<^verbatim>\<open>error\<close> is \<open>Failed\<close> here.
\<close>

datatype face_status = Punched | Unmatched | Duplicate | Skipped | Failed

record face_result =
  faceIndex :: nat
  face_status :: face_status
  employeeId :: "nat option"
  employeeName :: "string option"
  similarity :: "real option"
  attendanceId :: "nat option"
  punchedAt :: "timestamp option"
  message :: "string option"













definition handled :: "face_result \<Rightarrow> nat \<Rightarrow> bool" where
  "handled r e = (employeeId r = Some e \<and> (face_status r = Punched \<or> face_status r = Skipped))"





section \<open>Logical date and night-shift rollover\<close>

text \<open>
  The calendar of the JavaScript \<^verbatim>\<open>Date\<close> object, in whole days since 1 January 1970 (the
  time of day is midnight throughout \<^verbatim>\<open>formatDate\<close>): \<^verbatim>\<open>DayFromYear\<close>, \<^verbatim>\<open>DaysInYear\<close> and
  \<^verbatim>\<open>InLeapYear\<close> of the language definition.
\<close>

definition InLeapYear :: "int \<Rightarrow> bool" where
  "InLeapYear y = (y mod 4 = 0 \<and> (y mod 100 \<noteq> 0 \<or> y mod 400 = 0))"

definition DaysInYear :: "int \<Rightarrow> int" where
  "DaysInYear y = (if InLeapYear y then 366 else 365)"

definition DayFromYear :: "int \<Rightarrow> int" where
  "DayFromYear y = 365 * (y - 1970) + (y - 1969) div 4 - (y - 1901) div 100 + (y - 1601) div 400"

text \<open>
  A year is one day after its predecessor's last: the step of \<^verbatim>\<open>DayFromYear\<close>, needed for the
  termination of the search for the year of a day.
\<close>

lemma div_succ:
  fixes x k :: int
  assumes "0 < k"
  shows "(x + 1) div k = x div k + (if (x + 1) mod k = 0 then 1 else 0)"
proof (cases "x mod k + 1 = k")
  case True
  have "x + 1 = k * (x div k) + (x mod k + 1)" by simp
  also have "\<dots> = k * (x div k + 1) + 0" unfolding True by (simp add: algebra_simps)
  finally have e: "x + 1 = k * (x div k + 1) + 0" .
  have z: "(0::int) \<le> 0" by simp
  from int_div_pos_eq[OF e z assms] int_mod_pos_eq[OF e z assms] show ?thesis by simp
next
  case False
  have r: "0 \<le> x mod k + 1" "x mod k + 1 < k"
    using assms False pos_mod_bound[of k x] pos_mod_sign[of k x] by linarith+
  have e: "x + 1 = k * (x div k) + (x mod k + 1)" by simp
  have d: "(x + 1) div k = x div k" using int_div_pos_eq[OF e r] .
  have "(x + 1) mod k = x mod k + 1" using int_mod_pos_eq[OF e r] .
  then have "(x + 1) mod k \<noteq> 0" using pos_mod_sign[of k x] assms by linarith
  with d show ?thesis by simp
qed

lemma mod_shift_4: "(y - 1968) mod 4 = (y::int) mod 4"
proof -
  have "(y - 1968) mod 4 = (y + 4 * (-492)) mod 4" by simp
  also have "\<dots> = y mod 4" by (rule mod_mult_self2)
  finally show ?thesis .
qed

lemma mod_shift_100: "(y - 1900) mod 100 = (y::int) mod 100"
proof -
  have "(y - 1900) mod 100 = (y + 100 * (-19)) mod 100" by simp
  also have "\<dots> = y mod 100" by (rule mod_mult_self2)
  finally show ?thesis .
qed

lemma mod_shift_400: "(y - 1600) mod 400 = (y::int) mod 400"
proof -
  have "(y - 1600) mod 400 = (y + 400 * (-4)) mod 400" by simp
  also have "\<dots> = y mod 400" by (rule mod_mult_self2)
  finally show ?thesis .
qed

lemma mod_400_100: "(y::int) mod 400 = 0 \<Longrightarrow> y mod 100 = 0"
proof -
  assume "y mod 400 = 0"
  then have "400 dvd y" by (simp add: mod_eq_0_iff_dvd)
  moreover have "(100::int) dvd 400" by simp
  ultimately have "100 dvd y" by (rule dvd_trans[rotated])
  then show ?thesis by (simp add: mod_eq_0_iff_dvd)
qed

lemma mod_100_4: "(y::int) mod 100 = 0 \<Longrightarrow> y mod 4 = 0"
proof -
  assume "y mod 100 = 0"
  then have "100 dvd y" by (simp add: mod_eq_0_iff_dvd)
  moreover have "(4::int) dvd 100" by simp
  ultimately have "4 dvd y" by (rule dvd_trans[rotated])
  then show ?thesis by (simp add: mod_eq_0_iff_dvd)
qed

lemma leap_step:
  fixes q4 q100 q400 y :: int
  assumes "c100 \<Longrightarrow> c4" "c400 \<Longrightarrow> c100"
  shows "365 * (y - 1969) + (q4 + (if c4 then 1 else 0)) - (q100 + (if c100 then 1 else 0))
            + (q400 + (if c400 then 1 else 0))
         = 365 * (y - 1970) + q4 - q100 + q400 + (if c4 \<and> (\<not> c100 \<or> c400) then 366 else 365)"
  using assms by (cases c4; cases c100; cases c400) simp_all

lemma DayFromYear_Suc: "DayFromYear (y + 1) = DayFromYear y + DaysInYear y"
proof -
  have a: "(y - 1968) div 4 = (y - 1969) div 4 + (if y mod 4 = 0 then 1 else 0)"
    using div_succ[of 4 "y - 1969"] mod_shift_4[of y] by simp
  have b: "(y - 1900) div 100 = (y - 1901) div 100 + (if y mod 100 = 0 then 1 else 0)"
    using div_succ[of 100 "y - 1901"] mod_shift_100[of y] by simp
  have c: "(y - 1600) div 400 = (y - 1601) div 400 + (if y mod 400 = 0 then 1 else 0)"
    using div_succ[of 400 "y - 1601"] mod_shift_400[of y] by simp
  have "DayFromYear (y + 1)
        = 365 * (y - 1969) + (y - 1968) div 4 - (y - 1900) div 100 + (y - 1600) div 400"
    by (simp add: DayFromYear_def)
  also have "\<dots> = 365 * (y - 1969) + ((y - 1969) div 4 + (if y mod 4 = 0 then 1 else 0))
        - ((y - 1901) div 100 + (if y mod 100 = 0 then 1 else 0))
        + ((y - 1601) div 400 + (if y mod 400 = 0 then 1 else 0))"
    by (simp only: a b c)
  also have "\<dots> = 365 * (y - 1970) + (y - 1969) div 4 - (y - 1901) div 100 + (y - 1601) div 400
        + (if y mod 4 = 0 \<and> (\<not> y mod 100 = 0 \<or> y mod 400 = 0) then 366 else 365)"
    by (rule leap_step) (rule mod_100_4, assumption, rule mod_400_100, assumption)
  also have "\<dots> = DayFromYear y + DaysInYear y"
    by (simp only: DayFromYear_def DaysInYear_def InLeapYear_def)
  finally show ?thesis .
qed


text \<open>
  \<^verbatim>\<open>YearFromTime\<close>: the largest year that starts on or before the day, found by stepping up and
  then down from an estimate.
\<close>

function year_up :: "int \<Rightarrow> int \<Rightarrow> int" where
  "year_up n y = (if DayFromYear (y + 1) \<le> n then year_up n (y + 1) else y)"
  by pat_completeness auto
termination
proof (relation "measure (\<lambda>(n, y). nat (n + 1 - DayFromYear (y + 1)))")
  show "wf (measure (\<lambda>(n, y). nat (n + 1 - DayFromYear (y + 1))))" by simp
next
  fix n y :: int
  assume a: "DayFromYear (y + 1) \<le> n"
  have "DayFromYear (y + 1 + 1) = DayFromYear (y + 1) + DaysInYear (y + 1)"
    by (rule DayFromYear_Suc)
  then have "DayFromYear (y + 1 + 1) > DayFromYear (y + 1)"
    by (simp add: DaysInYear_def)
  with a show "((n, y + 1), (n, y)) \<in> measure (\<lambda>(n, y). nat (n + 1 - DayFromYear (y + 1)))"
    by simp
qed

function year_down :: "int \<Rightarrow> int \<Rightarrow> int" where
  "year_down n y = (if DayFromYear y \<le> n then y else year_down n (y - 1))"
  by pat_completeness auto
termination
proof (relation "measure (\<lambda>(n, y). nat (DayFromYear y - n))")
  show "wf (measure (\<lambda>(n, y). nat (DayFromYear y - n)))" by simp
next
  fix n y :: int
  assume a: "\<not> DayFromYear y \<le> n"
  have "DayFromYear (y - 1 + 1) = DayFromYear (y - 1) + DaysInYear (y - 1)"
    by (rule DayFromYear_Suc)
  then have "DayFromYear y > DayFromYear (y - 1)"
    by (simp add: DaysInYear_def)
  with a show "((n, y - 1), (n, y)) \<in> measure (\<lambda>(n, y). nat (DayFromYear y - n))"
    by simp
qed

declare year_up.simps [simp del]
declare year_down.simps [simp del]

definition YearFromDay :: "int \<Rightarrow> int" where
  "YearFromDay n = year_down n (year_up n (1970 + n div 366))"

text \<open>
  \<^verbatim>\<open>MakeDay\<close>, \<^verbatim>\<open>MonthFromTime\<close> and \<^verbatim>\<open>DateFromTime\<close> (months count from 0), \<^verbatim>\<open>Date.UTC\<close> (a year
  from 0 to 99 means 1900 plus that year) and \<^verbatim>\<open>setUTCDate\<close>. The range limit of time values
  (100 million days on either side of 1970) is not modelled.
\<close>

definition month_start :: "bool \<Rightarrow> int \<Rightarrow> int" where
  "month_start leap m =
     (if m = 0 then 0 else if m = 1 then 31
      else (if leap then 1 else 0) +
        (if m = 2 then 59 else if m = 3 then 90 else if m = 4 then 120 else if m = 5 then 151
         else if m = 6 then 181 else if m = 7 then 212 else if m = 8 then 243
         else if m = 9 then 273 else if m = 10 then 304 else 334))"

definition MakeDay :: "int \<Rightarrow> int \<Rightarrow> int \<Rightarrow> int" where
  "MakeDay y m dt =
     (let ym = y + m div 12; mn = m mod 12
      in DayFromYear ym + month_start (InLeapYear ym) mn + dt - 1)"

definition DayWithinYear :: "int \<Rightarrow> int" where
  "DayWithinYear n = n - DayFromYear (YearFromDay n)"

definition MonthFromDay :: "int \<Rightarrow> int" where
  "MonthFromDay n =
     (let d = DayWithinYear n; leap = InLeapYear (YearFromDay n)
      in if d < month_start leap 1 then 0 else if d < month_start leap 2 then 1
         else if d < month_start leap 3 then 2 else if d < month_start leap 4 then 3
         else if d < month_start leap 5 then 4 else if d < month_start leap 6 then 5
         else if d < month_start leap 7 then 6 else if d < month_start leap 8 then 7
         else if d < month_start leap 9 then 8 else if d < month_start leap 10 then 9
         else if d < month_start leap 11 then 10 else 11)"

definition DateFromDay :: "int \<Rightarrow> int" where
  "DateFromDay n =
     DayWithinYear n - month_start (InLeapYear (YearFromDay n)) (MonthFromDay n) + 1"

definition Date_UTC :: "int \<Rightarrow> int \<Rightarrow> int \<Rightarrow> int" where
  "Date_UTC y m dt = MakeDay (if 0 \<le> y \<and> y \<le> 99 then 1900 + y else y) m dt"

definition setUTCDate :: "int \<Rightarrow> int \<Rightarrow> int" where
  "setUTCDate n dt = MakeDay (YearFromDay n) (MonthFromDay n) dt"

text \<open>
  The calendar in words, for comparison: the days of a month, a valid date, and the day before
  a date.
\<close>

definition days_in_month :: "int \<Rightarrow> int \<Rightarrow> int" where
  "days_in_month y m =
     (if m = 2 then (if InLeapYear y then 29 else 28)
      else if m = 4 \<or> m = 6 \<or> m = 9 \<or> m = 11 then 30 else 31)"

definition valid_date :: "int \<Rightarrow> int \<Rightarrow> int \<Rightarrow> bool" where
  "valid_date y m d = (1 \<le> m \<and> m \<le> 12 \<and> 1 \<le> d \<and> d \<le> days_in_month y m)"

definition previous_day :: "int \<times> int \<times> int \<Rightarrow> int \<times> int \<times> int" where
  "previous_day ymd =
     (case ymd of (y, m, d) \<Rightarrow>
        if 1 < d then (y, m, d - 1)
        else if 1 < m then (y, m - 1, days_in_month y (m - 1))
        else (y - 1, 12, 31))"

text \<open>
  A JavaScript number is finite, NaN or an infinity; a value is a number or not
  (\<^verbatim>\<open>typeof rolloverHour === "number"\<close>). \<open>envNumber\<close> is \<^verbatim>\<open>Number(process.env.NIGHT_SHIFT_ROLLOVER_HOUR
  ?? process.env.ATTENDANCE_ROLLOVER_HOUR ?? 4)\<close>; the constant is that number, or 4 when it is
  falsy (zero or NaN), not finite or outside 0..23.
\<close>

datatype js_number = Finite real | NaN | PosInfinity | NegInfinity

datatype js_value = Number js_number | NotNumber

definition NIGHT_SHIFT_ROLLOVER_HOUR :: "js_number \<Rightarrow> real" where
  "NIGHT_SHIFT_ROLLOVER_HOUR envNumber =
     (let parsedRolloverHour =
            (case envNumber of
               Finite r \<Rightarrow> if r = 0 then Finite 4 else Finite r
             | NaN \<Rightarrow> Finite 4
             | other \<Rightarrow> other)
      in case parsedRolloverHour of
           Finite r \<Rightarrow> if 0 \<le> r \<and> r \<le> 23 then r else 4
         | _ \<Rightarrow> 4)"

text \<open>
  \<^verbatim>\<open>getAttendanceDateParts\<close> returns the year, month, day and hour that \<^verbatim>\<open>Intl.DateTimeFormat\<close>
  gives for the instant in the attendance time zone; they are the input here. \<^verbatim>\<open>formatDate\<close>
  takes them, and the optional \<^verbatim>\<open>options.rolloverHour\<close> (the constant when undefined).
\<close>

record date_parts =
  part_year :: int
  part_month :: int
  part_day :: int
  part_hour :: int

definition show_int :: "int \<Rightarrow> string" where
  "show_int i = (if i < 0 then ''-'' @ digits (nat (- i)) else digits (nat i))"

definition pad2 :: "int \<Rightarrow> string" where
  "pad2 v = (let s = show_int v in replicate (2 - length s) (CHR ''0'') @ s)"

definition date_text :: "int \<times> int \<times> int \<Rightarrow> string" where
  "date_text ymd = (case ymd of (y, m, d) \<Rightarrow> show_int y @ ''-'' @ pad2 m @ ''-'' @ pad2 d)"

definition rollover_applies :: "js_value \<Rightarrow> int \<Rightarrow> bool" where
  "rollover_applies rolloverHour h =
     (case rolloverHour of
        Number (Finite r) \<Rightarrow> 0 \<le> r \<and> r \<le> 23 \<and> of_int h < r
      | _ \<Rightarrow> False)"

definition formatDate :: "js_number \<Rightarrow> date_parts \<Rightarrow> js_value option \<Rightarrow> string" where
  "formatDate envNumber parts optRolloverHour =
     (let rolloverHour =
            (case optRolloverHour of
               None \<Rightarrow> Number (Finite (NIGHT_SHIFT_ROLLOVER_HOUR envNumber))
             | Some v \<Rightarrow> v)
      in if rollover_applies rolloverHour (part_hour parts) then
           (let utcDate = Date_UTC (part_year parts) (part_month parts - 1) (part_day parts);
                utcDate' = setUTCDate utcDate (DateFromDay utcDate - 1)
            in date_text (YearFromDay utcDate', MonthFromDay utcDate' + 1, DateFromDay utcDate'))
         else date_text (part_year parts, part_month parts, part_day parts))"

text \<open>
  The logical date in the words of the specification, for comparison: the calendar date of the
  parts, minus one day exactly when the hour is strictly less than the configured rollover
  hour.
\<close>

definition stated_logical_date :: "real \<Rightarrow> date_parts \<Rightarrow> string" where
  "stated_logical_date configuredHour parts =
     date_text (if of_int (part_hour parts) < configuredHour
                then previous_day (part_year parts, part_month parts, part_day parts)
                else (part_year parts, part_month parts, part_day parts))"

section \<open>Properties of the text helpers\<close>

lemma upper_unit_O: "upper_unit c = of_char CHR ''O'' \<longleftrightarrow> c = of_char CHR ''o'' \<or> c = of_char CHR ''O''"
  by (auto simp add: upper_unit_def)

lemma upper_unit_U: "upper_unit c = of_char CHR ''U'' \<longleftrightarrow> c = of_char CHR ''u'' \<or> c = of_char CHR ''U''"
  by (auto simp add: upper_unit_def)

lemma upper_unit_T: "upper_unit c = of_char CHR ''T'' \<longleftrightarrow> c = of_char CHR ''t'' \<or> c = of_char CHR ''T''"
  by (auto simp add: upper_unit_def)

lemma last_dropWhile: "dropWhile P xs \<noteq> [] \<Longrightarrow> last (dropWhile P xs) = last xs"
  by (induction xs) (auto split: if_splits)

lemma trim_ends:
  assumes "trim s \<noteq> []"
  shows "\<not> is_space (hd (trim s))" and "\<not> is_space (last (trim s))"
proof -
  let ?m = "dropWhile is_space s"
  let ?d = "dropWhile is_space (rev ?m)"
  have d: "?d \<noteq> []" using assms by (simp add: trim_def)
  have m: "?m \<noteq> []"
  proof
    assume a: "?m = []"
    have "?d = []" unfolding a by simp
    with d show False by simp
  qed
  have "last (trim s) = hd ?d" using d by (simp add: trim_def last_rev)
  then show "\<not> is_space (last (trim s))" using d hd_dropWhile[of is_space "rev ?m"] by simp
  have "hd (trim s) = last ?d" using d by (simp add: trim_def hd_rev)
  also have "\<dots> = last (rev ?m)" using d by (rule last_dropWhile)
  also have "\<dots> = hd ?m" using m by (simp add: last_rev)
  finally show "\<not> is_space (hd (trim s))" using m hd_dropWhile[of is_space s] by simp
qed

lemma trim_decomp:
  "\<exists>l r. s = l @ trim s @ r \<and> (\<forall>c\<in>set l. is_space c) \<and> (\<forall>c\<in>set r. is_space c)"
proof -
  let ?l = "takeWhile is_space s"
  let ?m = "dropWhile is_space s"
  let ?r = "rev (takeWhile is_space (rev ?m))"
  have 1: "s = ?l @ ?m" by simp
  have "rev ?m = takeWhile is_space (rev ?m) @ dropWhile is_space (rev ?m)" by simp
  then have "?m = rev (dropWhile is_space (rev ?m)) @ ?r"
    by (metis rev_append rev_rev_ident)
  then have "s = ?l @ trim s @ ?r" unfolding trim_def using 1 by metis
  moreover have "\<forall>c\<in>set ?l. is_space c" by (metis set_takeWhileD)
  moreover have "\<forall>c\<in>set ?r. is_space c" by (metis set_rev set_takeWhileD)
  ultimately show ?thesis by blast
qed

lemma trim_unique:
  assumes "s = l @ m @ r" "\<forall>c\<in>set l. is_space c" "\<forall>c\<in>set r. is_space c"
     "m \<noteq> []" "\<not> is_space (hd m)" "\<not> is_space (last m)"
  shows "trim s = m"
proof -
  have a: "dropWhile is_space s = m @ r"
    using assms by (cases m) (simp_all add: dropWhile_append1 dropWhile_append2)
  have "dropWhile is_space (rev r @ rev m) = rev m"
    using assms by (cases "rev m") (auto simp add: dropWhile_append2 last_rev hd_rev dropWhile_append)
  then show ?thesis unfolding trim_def a by simp
qed

section \<open>Punch validation and punch-type normalisation: theorems\<close>

text \<open>
  C4. \<^verbatim>\<open>validatePunchAttempt\<close> answers 400 exactly on the ineligible transitions: punch IN on a
  record whose punch-in time is set, any punch on a completed record, and punch OUT with no
  record or with no punch-in time. The messages are those of the transition table; for a record
  that obeys the data model (a punch-out time only together with a punch-in time) punch OUT
  without a punch-in time answers "Must punch in first". The validation returns no error
  exactly on the eligible transitions: punch IN on a record without punch-in time, punch OUT on
  an open record.
\<close>

theorem validatePunchAttempt_transitions:
  "((\<exists>e. validatePunchAttempt att pt = Some e \<and> status e = 400) \<longleftrightarrow>
      (pt = PUNCH_IN \<and> (\<exists>a. att = Some a \<and> punch_in_time a \<noteq> None)) \<or>
      (\<exists>a. att = Some a \<and> punch_in_time a \<noteq> None \<and> punch_out_time a \<noteq> None) \<or>
      (pt = PUNCH_OUT \<and> (att = None \<or> (\<exists>a. att = Some a \<and> punch_in_time a = None))))
   \<and> (\<forall>a. att = Some a \<and> pt = PUNCH_IN \<and> punch_in_time a \<noteq> None \<longrightarrow>
         validatePunchAttempt att pt = Some \<lparr> status = 400, error = ''Already punched in today'' \<rparr>)
   \<and> (\<forall>a. att = Some a \<and> punch_in_time a \<noteq> None \<and> punch_out_time a \<noteq> None \<longrightarrow>
         validatePunchAttempt att pt =
           Some \<lparr> status = 400,
                  error = (if pt = PUNCH_IN then ''Already punched in today''
                           else ''Already punched out today'') \<rparr>)
   \<and> (att = None \<and> pt = PUNCH_OUT \<longrightarrow>
         validatePunchAttempt att pt = Some \<lparr> status = 400, error = ''Must punch in first'' \<rparr>)
   \<and> (\<forall>a. att = Some a \<and> pt = PUNCH_OUT \<and> punch_in_time a = None \<and>
            (punch_out_time a \<noteq> None \<longrightarrow> punch_in_time a \<noteq> None) \<longrightarrow>
         validatePunchAttempt att pt = Some \<lparr> status = 400, error = ''Must punch in first'' \<rparr>)
   \<and> (validatePunchAttempt att pt = None \<longleftrightarrow>
         (\<exists>a. att = Some a \<and>
              (pt = PUNCH_IN \<and> punch_in_time a = None \<or>
               pt = PUNCH_OUT \<and> punch_in_time a \<noteq> None \<and> punch_out_time a = None)))"
  by (cases att; cases pt) (auto simp add: validatePunchAttempt_def)

text \<open>
  C9. The face-attendance route punches OUT only when the submitted \<^verbatim>\<open>punch_type\<close> is, between
  leading and trailing white space (every code unit that \<^verbatim>\<open>trim\<close> removes, the no-break space and
  the other Unicode spaces included), one of the eight spellings of "out" in upper or lower
  case; every other value, and in particular a missing or an empty one, is a punch IN.
\<close>

theorem facePunchType_only_literal_OUT:
  "(facePunchType raw = PUNCH_OUT \<longleftrightarrow>
      (\<exists>l a b c r. raw = Some (l @ [a, b, c] @ r) \<and>
          (\<forall>x\<in>set l. is_space x) \<and> (\<forall>x\<in>set r. is_space x) \<and>
          (a = of_char CHR ''o'' \<or> a = of_char CHR ''O'') \<and>
          (b = of_char CHR ''u'' \<or> b = of_char CHR ''U'') \<and>
          (c = of_char CHR ''t'' \<or> c = of_char CHR ''T'')))
   \<and> (facePunchType raw \<noteq> PUNCH_OUT \<longleftrightarrow> facePunchType raw = PUNCH_IN)
   \<and> facePunchType None = PUNCH_IN \<and> facePunchType (Some []) = PUNCH_IN"
proof (intro conjI iffI)
  assume out: "facePunchType raw = PUNCH_OUT"
  then have n: "normalizedPunchType raw = units ''OUT''"
    by (simp add: facePunchType_def split: if_splits)
  then obtain s where raw: "raw = Some s"
    by (cases raw) (auto simp add: normalizedPunchType_def toUpperCase_def trim_def units_def)
  from n raw have m: "map upper_unit (trim s) = units ''OUT''"
    by (simp add: normalizedPunchType_def toUpperCase_def)
  then obtain a b c where t: "trim s = [a, b, c]"
    and "upper_unit a = of_char CHR ''O''" "upper_unit b = of_char CHR ''U''"
      "upper_unit c = of_char CHR ''T''"
    by (auto simp add: map_eq_Cons_conv units_def)
  then have abc: "a = of_char CHR ''o'' \<or> a = of_char CHR ''O''"
      "b = of_char CHR ''u'' \<or> b = of_char CHR ''U''"
      "c = of_char CHR ''t'' \<or> c = of_char CHR ''T''"
    by (simp_all only: upper_unit_O upper_unit_U upper_unit_T)
  from trim_decomp[of s] t obtain l r where "s = l @ [a, b, c] @ r"
    "\<forall>x\<in>set l. is_space x" "\<forall>x\<in>set r. is_space x"
    by auto
  with raw abc show "\<exists>l a b c r. raw = Some (l @ [a, b, c] @ r) \<and>
          (\<forall>x\<in>set l. is_space x) \<and> (\<forall>x\<in>set r. is_space x) \<and>
          (a = of_char CHR ''o'' \<or> a = of_char CHR ''O'') \<and>
          (b = of_char CHR ''u'' \<or> b = of_char CHR ''U'') \<and>
          (c = of_char CHR ''t'' \<or> c = of_char CHR ''T'')"
    by blast
next
  assume "\<exists>l a b c r. raw = Some (l @ [a, b, c] @ r) \<and>
          (\<forall>x\<in>set l. is_space x) \<and> (\<forall>x\<in>set r. is_space x) \<and>
          (a = of_char CHR ''o'' \<or> a = of_char CHR ''O'') \<and>
          (b = of_char CHR ''u'' \<or> b = of_char CHR ''U'') \<and>
          (c = of_char CHR ''t'' \<or> c = of_char CHR ''T'')"
  then obtain l a b c r where raw: "raw = Some (l @ [a, b, c] @ r)"
    and l: "\<forall>x\<in>set l. is_space x" and r: "\<forall>x\<in>set r. is_space x"
    and a: "a = of_char CHR ''o'' \<or> a = of_char CHR ''O''"
    and b: "b = of_char CHR ''u'' \<or> b = of_char CHR ''U''"
    and c: "c = of_char CHR ''t'' \<or> c = of_char CHR ''T''"
    by blast
  have "\<not> is_space (hd [a, b, c])" "\<not> is_space (last [a, b, c])"
    using a c by (auto simp add: is_space_def)
  then have "trim (l @ [a, b, c] @ r) = [a, b, c]"
    using l r by (intro trim_unique[of _ l _ r]) simp_all
  moreover have "upper_unit a = of_char CHR ''O''" "upper_unit b = of_char CHR ''U''"
      "upper_unit c = of_char CHR ''T''"
    using a b c by (simp_all only: upper_unit_O upper_unit_U upper_unit_T)
  then have "map upper_unit [a, b, c] = units ''OUT''"
    by (simp add: units_def)
  ultimately show "facePunchType raw = PUNCH_OUT"
    using raw by (simp add: facePunchType_def normalizedPunchType_def toUpperCase_def)
next
  show "facePunchType None = PUNCH_IN"
    by (simp add: facePunchType_def normalizedPunchType_def toUpperCase_def trim_def units_def)
  show "facePunchType (Some []) = PUNCH_IN"
    by (simp add: facePunchType_def normalizedPunchType_def toUpperCase_def trim_def units_def)
qed (cases "facePunchType raw"; simp)+


theorem validatePunchAttempt_transitions_witness:
  "validatePunchAttempt
     (Some \<lparr> attendance_id = 7, date = Some 19523, punch_in_time = None, punch_out_time = None,
             emp_id = 100, emp_code = None, employee_name = None, designation_name = None,
             ward_id = None, ward_name = None \<rparr>) PUNCH_OUT
     = Some \<lparr> status = 400, error = ''Must punch in first'' \<rparr>
   \<and> validatePunchAttempt
     (Some \<lparr> attendance_id = 7, date = Some 19523, punch_in_time = Some 555, punch_out_time = None,
             emp_id = 100, emp_code = None, employee_name = None, designation_name = None,
             ward_id = None, ward_name = None \<rparr>) PUNCH_IN
     = Some \<lparr> status = 400, error = ''Already punched in today'' \<rparr>
   \<and> validatePunchAttempt
     (Some \<lparr> attendance_id = 7, date = Some 19523, punch_in_time = Some 555, punch_out_time = None,
             emp_id = 100, emp_code = None, employee_name = None, designation_name = None,
             ward_id = None, ward_name = None \<rparr>) PUNCH_OUT
     = None"
  using
    validatePunchAttempt_transitions[of
      "Some \<lparr> attendance_id = 7, date = Some 19523, punch_in_time = None, punch_out_time = None,
             emp_id = 100, emp_code = None, employee_name = None, designation_name = None,
             ward_id = None, ward_name = None \<rparr>" PUNCH_OUT]
    validatePunchAttempt_transitions[of
      "Some \<lparr> attendance_id = 7, date = Some 19523, punch_in_time = Some 555, punch_out_time = None,
             emp_id = 100, emp_code = None, employee_name = None, designation_name = None,
             ward_id = None, ward_name = None \<rparr>" PUNCH_IN]
    validatePunchAttempt_transitions[of
      "Some \<lparr> attendance_id = 7, date = Some 19523, punch_in_time = Some 555, punch_out_time = None,
             emp_id = 100, emp_code = None, employee_name = None, designation_name = None,
             ward_id = None, ward_name = None \<rparr>" PUNCH_OUT]
  by simp

theorem facePunchType_only_literal_OUT_witness:
  "facePunchType (Some ([0x00A0, 0x2003] @ units ''oUt'' @ [0x0020, 0xFEFF])) = PUNCH_OUT \<and>
   facePunchType (Some (units ''checkout'')) = PUNCH_IN"
proof
  have "\<exists>l a b c r. Some ([0x00A0, 0x2003] @ units ''oUt'' @ [0x0020, 0xFEFF]) = Some (l @ [a, b, c] @ r) \<and>
          (\<forall>x\<in>set l. is_space x) \<and> (\<forall>x\<in>set r. is_space x) \<and>
          (a = of_char CHR ''o'' \<or> a = of_char CHR ''O'') \<and>
          (b = of_char CHR ''u'' \<or> b = of_char CHR ''U'') \<and>
          (c = of_char CHR ''t'' \<or> c = of_char CHR ''T'')"
    by (rule exI[of _ "[0x00A0, 0x2003]"], rule exI[of _ "of_char CHR ''o''"],
        rule exI[of _ "of_char CHR ''U''"], rule exI[of _ "of_char CHR ''t''"],
        rule exI[of _ "[0x0020, 0xFEFF]"]) (simp add: is_space_def units_def)
  then show "facePunchType (Some ([0x00A0, 0x2003] @ units ''oUt'' @ [0x0020, 0xFEFF])) = PUNCH_OUT"
    using facePunchType_only_literal_OUT[of "Some ([0x00A0, 0x2003] @ units ''oUt'' @ [0x0020, 0xFEFF])"]
    by blast
  have "\<not> (\<exists>l a b c r. Some (units ''checkout'') = Some (l @ [a, b, c] @ r) \<and>
          (\<forall>x\<in>set l. is_space x) \<and> (\<forall>x\<in>set r. is_space x) \<and>
          (a = of_char CHR ''o'' \<or> a = of_char CHR ''O'') \<and>
          (b = of_char CHR ''u'' \<or> b = of_char CHR ''U'') \<and>
          (c = of_char CHR ''t'' \<or> c = of_char CHR ''T''))"
  proof
    assume "\<exists>l a b c r. Some (units ''checkout'') = Some (l @ [a, b, c] @ r) \<and>
          (\<forall>x\<in>set l. is_space x) \<and> (\<forall>x\<in>set r. is_space x) \<and>
          (a = of_char CHR ''o'' \<or> a = of_char CHR ''O'') \<and>
          (b = of_char CHR ''u'' \<or> b = of_char CHR ''U'') \<and>
          (c = of_char CHR ''t'' \<or> c = of_char CHR ''T'')"
    then obtain l a b c r where e: "units ''checkout'' = l @ [a, b, c] @ r"
      and l: "\<forall>x\<in>set l. is_space x" and a: "a = of_char CHR ''o'' \<or> a = of_char CHR ''O''"
      by auto
    show False
    proof (cases l)
      case Nil
      with e a show False by (auto simp add: units_def)
    next
      case (Cons x xs)
      with e have "x = of_char CHR ''c''" by (simp add: units_def)
      with l Cons show False by (simp add: is_space_def)
    qed
  qed
  then show "facePunchType (Some (units ''checkout'')) = PUNCH_IN"
    using facePunchType_only_literal_OUT[of "Some (units ''checkout'')"] by blast
qed


section \<open>The crop box lies inside the image\<close>

lemma crop_axis:
  fixes l w iw a b :: int
  assumes "l = max a 0" "w = min (iw - l) b" "\<not> w \<le> 0"
  shows "0 \<le> l \<and> 1 \<le> w \<and> l + w \<le> iw"
  using assms by auto

text \<open>
  C10. Whatever the bounding box, the image dimensions and the padding ratio,
  \<^verbatim>\<open>computeCropRegion\<close> returns null or a rectangle inside the image: its left and top are not
  negative, its width and height are at least one pixel, and it ends at or before the right
  and the bottom edge.
\<close>

theorem computeCropRegion_inside_image:
  assumes "computeCropRegion boundingBox imageWidth imageHeight paddingRatio = Some r"
  shows "0 \<le> left r \<and> 0 \<le> top r \<and> 1 \<le> width r \<and> 1 \<le> height r \<and>
         left r + width r \<le> imageWidth \<and> top r + height r \<le> imageHeight"
proof -
  from assms obtain b where bb: "boundingBox = Some b"
    by (cases boundingBox) (simp_all add: computeCropRegion_def)
  define bw where "bw = max (Math_round (Width b * of_int imageWidth)) 1"
  define bh where "bh = max (Math_round (Height b * of_int imageHeight)) 1"
  define px where "px = Math_round (of_int bw * paddingRatio)"
  define py where "py = Math_round (of_int bh * paddingRatio)"
  define l where "l = max (Math_round (Left b * of_int imageWidth) - px) 0"
  define t where "t = max (Math_round (Top b * of_int imageHeight) - py) 0"
  define w where "w = min (imageWidth - l) (bw + px * 2)"
  define h where "h = min (imageHeight - t) (bh + py * 2)"
  have eq: "computeCropRegion boundingBox imageWidth imageHeight paddingRatio =
      (if imageWidth \<le> 0 \<or> imageHeight \<le> 0 then None
       else if w \<le> 0 \<or> h \<le> 0 then None
       else Some \<lparr> left = l, top = t, width = w, height = h \<rparr>)"
    unfolding computeCropRegion_def bb Let_def w_def h_def l_def t_def px_def py_def bw_def bh_def
    by simp
  from assms have w: "\<not> w \<le> 0" and h: "\<not> h \<le> 0"
    and r: "r = \<lparr> left = l, top = t, width = w, height = h \<rparr>"
    unfolding eq by (simp_all split: if_splits)
  from crop_axis[OF l_def w_def w] crop_axis[OF t_def h_def h] show ?thesis
    unfolding r by simp
qed

theorem computeCropRegion_inside_image_witness:
  "computeCropRegion (Some \<lparr> Width = 3 / 10, Height = 1 / 4, Left = 8 / 10, Top = 1 / 10 \<rparr>)
      640 480 default_paddingRatio
     = Some \<lparr> left = 464, top = 18, width = 176, height = 180 \<rparr>
   \<and> left \<lparr> left = 464, top = 18, width = 176, height = 180 \<rparr>
       + width \<lparr> left = 464, top = 18, width = 176, height = 180 \<rparr> \<le> 640
   \<and> top \<lparr> left = 464, top = 18, width = 176, height = 180 \<rparr>
       + height \<lparr> left = 464, top = 18, width = 176, height = 180 \<rparr> \<le> 480"
proof -
  have e: "computeCropRegion (Some \<lparr> Width = 3 / 10, Height = 1 / 4, Left = 8 / 10, Top = 1 / 10 \<rparr>)
      640 480 default_paddingRatio
     = Some \<lparr> left = 464, top = 18, width = 176, height = 180 \<rparr>"
    by (simp add: computeCropRegion_def Let_def Math_round_def default_paddingRatio_def)
  from computeCropRegion_inside_image[OF e] e show ?thesis by blast
qed


section \<open>The permission resolver's city map\<close>

lemma build_payload_snoc: "build_payload (rows @ [r]) = add_row (build_payload rows) r"
  by (simp add: build_payload_def)

lemma cityMap_add_row_other:
  "row_key r \<noteq> k \<Longrightarrow> cityMap (add_row acc r) k = cityMap acc k"
  by (simp add: add_row_def Let_def split: option.splits)

lemma cityMap_add_row_same:
  "cityMap (add_row acc r) (row_key r) =
     Some (case row_city_id r of
             None \<Rightarrow> \<lparr> all = True, ids = [] \<rparr>
           | Some c \<Rightarrow>
              (case cityMap acc (row_key r) of
                 None \<Rightarrow> \<lparr> all = False, ids = [c] \<rparr>
               | Some sc \<Rightarrow> if all sc then sc else sc\<lparr> ids := set_add c (ids sc) \<rparr>))"
  by (simp add: add_row_def Let_def set_add_def split: option.splits)

lemma set_set_add: "set (set_add x xs) = insert x (set xs)"
  by (auto simp add: set_add_def)

lemma distinct_set_add: "distinct xs \<Longrightarrow> distinct (set_add x xs)"
  by (auto simp add: set_add_def)

lemma scope_of_rows_build: "scope_of_rows rows k (cityMap (build_payload rows) k)"
proof (induction rows rule: rev_induct)
  case Nil
  show ?case by (simp add: scope_of_rows_def build_payload_def empty_payload_def)
next
  case (snoc r rows)
  show ?case
  proof (cases "row_key r = k")
    case False
    with snoc show ?thesis
      by (auto simp add: build_payload_snoc cityMap_add_row_other scope_of_rows_def
          split: option.splits)
  next
    case True
    show ?thesis
    proof (cases "row_city_id r")
      case None
      with True show ?thesis
        using cityMap_add_row_same[of "build_payload rows" r]
        by (auto simp add: build_payload_snoc scope_of_rows_def)
    next
      case (Some c)
      show ?thesis
      proof (cases "cityMap (build_payload rows) k")
        case None
        with snoc have "\<forall>r\<in>set rows. row_key r \<noteq> k" by (simp add: scope_of_rows_def)
        with True Some None show ?thesis
          using cityMap_add_row_same[of "build_payload rows" r]
          by (auto simp add: build_payload_snoc scope_of_rows_def)
      next
        case (Some sc)
        note sc = this
        with snoc have ok: "scope_of_rows rows k (Some sc)" by simp
        show ?thesis
        proof (cases "all sc")
          case True
          with ok \<open>row_key r = k\<close> \<open>row_city_id r = Some c\<close> sc show ?thesis
            using cityMap_add_row_same[of "build_payload rows" r]
            by (auto simp add: build_payload_snoc scope_of_rows_def)
        next
          case False
          with ok \<open>row_key r = k\<close> \<open>row_city_id r = Some c\<close> sc show ?thesis
            using cityMap_add_row_same[of "build_payload rows" r]
            by (auto simp add: build_payload_snoc scope_of_rows_def set_set_add distinct_set_add)
        qed
      qed
    qed
  qed
qed

lemma scope_of_rows_unique:
  assumes "scope_of_rows rows k s" "scope_of_rows rows' k s'" "set rows' = set rows"
  shows "map_option all s' = map_option all s \<and>
         map_option (\<lambda>sc. set (ids sc)) s' = map_option (\<lambda>sc. set (ids sc)) s"
  using assms by (cases s; cases s') (auto simp add: scope_of_rows_def)


text \<open>
  C5. For every list of permission rows and every key, the resolver's city map has an entry
  for the key exactly when a row contributes to it; the entry is \<^verbatim>\<open>all\<close> exactly when a
  contributing row has a null city (and then holds no ids), and otherwise its ids are the
  cities of the contributing rows. Processing the same rows in another order gives the same
  \<^verbatim>\<open>all\<close> flag and the same set of ids.
\<close>

theorem cityMap_scope_per_key:
  "scope_of_rows rows k (cityMap (build_payload rows) k) \<and>
   (mset rows' = mset rows \<longrightarrow>
      map_option all (cityMap (build_payload rows') k)
        = map_option all (cityMap (build_payload rows) k) \<and>
      map_option (\<lambda>sc. set (ids sc)) (cityMap (build_payload rows') k)
        = map_option (\<lambda>sc. set (ids sc)) (cityMap (build_payload rows) k))"
proof (intro conjI impI)
  show "scope_of_rows rows k (cityMap (build_payload rows) k)" by (rule scope_of_rows_build)
next
  assume "mset rows' = mset rows"
  then have "set rows' = set rows" by (rule mset_eq_setD)
  from scope_of_rows_unique[OF scope_of_rows_build scope_of_rows_build this]
  show "map_option all (cityMap (build_payload rows') k)
          = map_option all (cityMap (build_payload rows) k)"
   and "map_option (\<lambda>sc. set (ids sc)) (cityMap (build_payload rows') k)
        = map_option (\<lambda>sc. set (ids sc)) (cityMap (build_payload rows) k)"
    by simp_all
qed

theorem cityMap_scope_per_key_witness:
  "mset example_rows_b = mset example_rows_a
   \<and> cityMap (build_payload example_rows_a) ''city:view'' = Some \<lparr> all = False, ids = [3, 5] \<rparr>
   \<and> scope_of_rows example_rows_a ''city:view'' (Some \<lparr> all = False, ids = [3, 5] \<rparr>)
   \<and> map_option (\<lambda>sc. set (ids sc)) (cityMap (build_payload example_rows_b) ''city:view'')
       = Some {3, 5}
   \<and> map_option all (cityMap (build_payload example_rows_b) ''zone:view'') = Some True"
proof -
  have m: "mset example_rows_b = mset example_rows_a"
    by (simp add: example_rows_a_def example_rows_b_def)
  have c: "cityMap (build_payload example_rows_a) ''city:view'' = Some \<lparr> all = False, ids = [3, 5] \<rparr>"
    by (simp add: example_rows_a_def build_payload_def add_row_def empty_payload_def row_key_def
        set_add_def toLowerCase_def lower_char_def upper_letters_def lower_letters_def Let_def)
  have z: "cityMap (build_payload example_rows_a) ''zone:view'' = Some \<lparr> all = True, ids = [] \<rparr>"
    by (simp add: example_rows_a_def build_payload_def add_row_def empty_payload_def row_key_def
        set_add_def toLowerCase_def lower_char_def upper_letters_def lower_letters_def Let_def)
  from cityMap_scope_per_key[of example_rows_a "''city:view''" example_rows_b]
    cityMap_scope_per_key[of example_rows_a "''zone:view''" example_rows_b] m c z
  show ?thesis by simp
qed

section \<open>The city scope attached to a request\<close>


lemma fetchUserPermissions_keeps_coherent:
  assumes "cache_coherent db c"
  shows "cache_coherent db (snd (fetchUserPermissions db c i))"
  using assms
  by (auto simp add: fetchUserPermissions_def cache_coherent_def Let_def split: option.splits)

lemma invalidatePermissionCache_coherent: "cache_coherent db (invalidatePermissionCache c)"
  by (simp add: invalidatePermissionCache_def cache_coherent_def)









section \<open>CSV rendering is a lossless round trip\<close>

lemma quoted_body:
  "csv_records Quoted f r rs (double_quotes s @ dquote # rest) = csv_records QuoteSeen (f @ s) r rs rest"
  by (induction s arbitrary: f) (simp_all add: double_quotes_def)

lemma quoted_field:
  "csv_records FieldStart [] r rs (csvEscapeValue (Some s) @ rest) = csv_records QuoteSeen s r rs rest"
  using quoted_body[of "[]" r rs s rest] by (simp add: csvEscapeValue_def)

lemma quoted_line:
  "fs \<noteq> [] \<Longrightarrow>
   csv_records FieldStart [] r rs (join '','' (map (\<lambda>s. csvEscapeValue (Some s)) fs) @ rest)
     = csv_records QuoteSeen (last fs) (r @ butlast fs) rs rest"
proof (induction fs arbitrary: r)
  case Nil
  then show ?case by simp
next
  case (Cons a fs)
  show ?case
  proof (cases fs)
    case Nil
    then show ?thesis by (simp add: quoted_field)
  next
    case (Cons b gs)
    have "csv_records FieldStart [] r rs
            (join '','' (map (\<lambda>s. csvEscapeValue (Some s)) (a # fs)) @ rest)
          = csv_records QuoteSeen a r rs
              (CHR '','' # join '','' (map (\<lambda>s. csvEscapeValue (Some s)) fs) @ rest)"
      using quoted_field[of r rs a] by (simp add: Cons)
    also have "\<dots> = csv_records FieldStart [] (r @ [a]) rs
              (join '','' (map (\<lambda>s. csvEscapeValue (Some s)) fs) @ rest)"
      by (simp add: dquote_def)
    also have "\<dots> = csv_records QuoteSeen (last fs) ((r @ [a]) @ butlast fs) rs rest"
      using Cons.IH[of "r @ [a]"] Cons by simp
    finally show ?thesis using Cons by simp
  qed
qed

lemma quoted_lines:
  "ls \<noteq> [] \<Longrightarrow> \<forall>l\<in>set ls. l \<noteq> [] \<Longrightarrow>
   csv_records FieldStart [] [] rs
      (join [CHR 0x0A] (map (\<lambda>fs. join '','' (map (\<lambda>s. csvEscapeValue (Some s)) fs)) ls))
     = Some (rs @ ls)"
proof (induction ls arbitrary: rs)
  case Nil
  then show ?case by simp
next
  case (Cons l ls)
  then have l: "l \<noteq> []" by simp
  show ?case
  proof (cases ls)
    case Nil
    with quoted_line[OF l, of "[]" rs "[]"] l show ?thesis by simp
  next
    case (Cons m ms)
    let ?line = "\<lambda>fs. join '','' (map (\<lambda>s. csvEscapeValue (Some s)) fs)"
    have "csv_records FieldStart [] [] rs (join [CHR 0x0A] (map ?line (l # ls)))
          = csv_records QuoteSeen (last l) (butlast l) rs (CHR 0x0A # join [CHR 0x0A] (map ?line ls))"
      using quoted_line[OF l, of "[]" rs] by (simp add: Cons)
    also have "\<dots> = csv_records FieldStart [] [] (rs @ [l]) (join [CHR 0x0A] (map ?line ls))"
      using l by (simp add: dquote_def)
    also have "\<dots> = Some ((rs @ [l]) @ ls)"
      using Cons.IH[of "rs @ [l]"] Cons.prems Cons by simp
    finally show ?thesis by simp
  qed
qed

text \<open>
  C7. With at least one header, \<^verbatim>\<open>buildCsvDocument\<close> returns a document, and reading that
  document as RFC 4180 CSV gives back the header texts and then, row by row, the text of every
  cell unchanged, a null cell as the empty text.
\<close>

theorem csv_round_trip:
  assumes "headers \<noteq> []"
  shows "\<exists>doc. buildCsvDocument rows headers = Inr doc \<and>
           parse_csv doc = Some (map header_text headers # map (\<lambda>row. map (\<lambda>h. cell_text h row) headers) rows)"
proof (cases rows)
  case Nil
  have "csv_records FieldStart [] [] [] (join '','' (map (\<lambda>s. csvEscapeValue (Some s)) (map header_text headers)) @ [CHR 0x0A])
     = Some [map header_text headers]"
    using assms quoted_line[of "map header_text headers" "[]" "[]" "[CHR 0x0A]"]
    by (simp add: dquote_def)
  with assms Nil show ?thesis
    by (simp add: buildCsvDocument_def parse_csv_def comp_def)
next
  case (Cons a as)
  let ?ls = "map header_text headers # map (\<lambda>row. map (\<lambda>h. cell_text h row) headers) rows"
  have "csv_records FieldStart [] [] []
      (join [CHR 0x0A] (map (\<lambda>fs. join '','' (map (\<lambda>s. csvEscapeValue (Some s)) fs)) ?ls))
     = Some ([] @ ?ls)"
    using assms by (intro quoted_lines) auto
  with assms Cons show ?thesis
    by (simp add: buildCsvDocument_def parse_csv_def comp_def Let_def)
qed

theorem csv_round_trip_witness:
  "example_headers \<noteq> []
   \<and> parse_csv (projr (buildCsvDocument example_report_rows example_headers))
       = Some [[''Employee Name'', ''addr''],
               [''Pat '' @ [dquote] @ ''PJ'' @ [dquote] @ '' Roy'', ''12, Main'' @ [CHR 0x0A] @ ''Indore''],
               [''Lee'', []]]"
proof -
  have h: "example_headers \<noteq> []" by (simp add: example_headers_def)
  from csv_round_trip[OF h, of example_report_rows] obtain doc where
    d: "buildCsvDocument example_report_rows example_headers = Inr doc" and
    p: "parse_csv doc = Some (map header_text example_headers #
          map (\<lambda>row. map (\<lambda>h. cell_text h row) example_headers) example_report_rows)"
    by blast
  have "map header_text example_headers #
          map (\<lambda>row. map (\<lambda>h. cell_text h row) example_headers) example_report_rows
        = [[''Employee Name'', ''addr''],
           [''Pat '' @ [dquote] @ ''PJ'' @ [dquote] @ '' Roy'', ''12, Main'' @ [CHR 0x0A] @ ''Indore''],
           [''Lee'', []]]"
    by (simp add: example_headers_def example_report_rows_def header_text_def cell_text_def
        rawValue_def)
  with h d p show ?thesis by simp
qed


section \<open>Scope injection into the report filters\<close>

lemma join_snoc: "join sep (xs @ [x]) = (if xs = [] then x else join sep xs @ sep @ x)"
  by (induction sep xs rule: join.induct) auto

lemma finish_scope:
  assumes "\<not> all sc"
  shows "appended_scope_clause (finishFilters (addCityScopeFilter None st)) sc
           (finishFilters (addCityScopeFilter (Some sc) st))"
  using assms
  by (simp add: appended_scope_clause_def finishFilters_def addCityScopeFilter_def Let_def
      join_snoc placeholder_def)

text \<open>
  C6. For a city scope that is not \<^verbatim>\<open>all\<close>, the attendance filter builder and the
  supervisor-summary filter builder both append one condition to the WHERE clause of the same
  request: \<^verbatim>\<open>c.city_id = ANY($N)\<close> with the scope's ids bound as the N-th parameter, or, when the
  scope has no ids, the contradiction \<^verbatim>\<open>1 = 0\<close> and no parameter.
\<close>

theorem report_city_scope_clause:
  assumes "\<not> all sc"
  shows "appended_scope_clause (buildAttendanceFilters toNumber query locationExpression None) sc
           (buildAttendanceFilters toNumber query locationExpression (Some sc))
       \<and> appended_scope_clause (buildSupervisorSummaryFilters toNumber query None) sc
           (buildSupervisorSummaryFilters toNumber query (Some sc))"
  unfolding buildAttendanceFilters_def buildSupervisorSummaryFilters_def
  using finish_scope[OF assms] by blast

lemmas filter_eval =
  buildAttendanceFilters_def buildSupervisorSummaryFilters_def finishFilters_def
  addCityScopeFilter_def addFlagFilter_def addSearchFilter_def addTextFilter_def
  addNumericFilter_def addDateFilters_def empty_filter_state_def parseBooleanFlag_def
  parseIntegerParam_def first_truthy_def or_empty_def placeholder_def trim_def is_space_def
  toLowerCase_units_def lower_unit_def units_def Let_def
  example_query_def example_toNumber_def

lemma example_attendance_where: "whereClause (buildAttendanceFilters example_toNumber example_query ''LOC'' None)
         = ''WHERE a.date = $1 AND z.zone_id = $2 AND a.punch_in_time IS NOT NULL''"
    by (simp add: filter_eval)
lemma example_attendance_params: " result_params (buildAttendanceFilters example_toNumber example_query ''LOC'' None)
         = [PText (units ''2023-06-15''), PNum 3]"
    by (simp add: filter_eval)
lemma example_summary_where: "whereClause (buildSupervisorSummaryFilters example_toNumber Map.empty None) = []"
     by (simp add: filter_eval)
lemma example_summary_params: "result_params (buildSupervisorSummaryFilters example_toNumber Map.empty None) = ([] :: int param list)"
    by (simp add: filter_eval)

theorem report_city_scope_clause_witness:
  "\<not> all \<lparr> all = False, ids = [2, 5] \<rparr>
   \<and> whereClause (buildAttendanceFilters example_toNumber example_query ''LOC''
        (Some \<lparr> all = False, ids = [2, 5] \<rparr>))
      = ''WHERE a.date = $1 AND z.zone_id = $2 AND a.punch_in_time IS NOT NULL AND c.city_id = ANY($3)''
   \<and> result_params (buildAttendanceFilters example_toNumber example_query ''LOC''
        (Some \<lparr> all = False, ids = [2, 5] \<rparr>))
      = [PText (units ''2023-06-15''), PNum 3, PIds [2, 5]]
   \<and> whereClause (buildSupervisorSummaryFilters example_toNumber Map.empty
        (Some \<lparr> all = False, ids = [] \<rparr>)) = ''WHERE 1 = 0''
   \<and> result_params (buildSupervisorSummaryFilters example_toNumber Map.empty
        (Some \<lparr> all = False, ids = [] \<rparr>)) = []"
proof -
  have a: "\<not> all \<lparr> all = False, ids = [2, 5] \<rparr>" "\<not> all \<lparr> all = False, ids = [] \<rparr>"
    by simp_all
  from report_city_scope_clause[OF a(1), of example_toNumber example_query "''LOC''"]
    report_city_scope_clause[OF a(2), of example_toNumber Map.empty "''LOC''"]
  show ?thesis
    by (simp add: appended_scope_clause_def example_attendance_where example_attendance_params
        example_summary_where example_summary_params)
qed


section \<open>The resolver on punch OUT\<close>









lemma select_fields_simps:
  "attendance_id (select_fields j) = a_attendance_id (fst j)"
  "date (select_fields j) = Some (a_date (fst j))"
  "punch_in_time (select_fields j) = a_punch_in_time (fst j)"
  "punch_out_time (select_fields j) = a_punch_out_time (fst j)"
  by (simp_all add: select_fields_def split: prod.splits)












section \<open>Group mode: duplicates within a frame and the success flag\<close>




lemma handled_punched: "face_status r = Punched \<Longrightarrow> employeeId r = Some e \<Longrightarrow> handled r e"
  by (simp add: handled_def)










section \<open>The logical date\<close>

lemma year_up_above: "n < DayFromYear (year_up n y + 1)"
proof (induction n y rule: year_up.induct)
  case (1 n y)
  show ?case
  proof (cases "DayFromYear (y + 1) \<le> n")
    case True
    with 1 show ?thesis by (simp add: year_up.simps[of n y])
  next
    case False
    then show ?thesis by (simp add: year_up.simps[of n y])
  qed
qed

lemma year_down_window:
  "n < DayFromYear (y + 1) \<Longrightarrow>
   DayFromYear (year_down n y) \<le> n \<and> n < DayFromYear (year_down n y + 1)"
proof (induction n y rule: year_down.induct)
  case (1 n y)
  show ?case
  proof (cases "DayFromYear y \<le> n")
    case True
    with 1 show ?thesis by (simp add: year_down.simps[of n y])
  next
    case False
    then have "n < DayFromYear (y - 1 + 1)" by simp
    with 1 False show ?thesis by (simp add: year_down.simps[of n y])
  qed
qed

lemma YearFromDay_window:
  "DayFromYear (YearFromDay n) \<le> n \<and> n < DayFromYear (YearFromDay n + 1)"
  unfolding YearFromDay_def by (rule year_down_window) (rule year_up_above)

lemma DayFromYear_add: "DayFromYear y + 365 * int k \<le> DayFromYear (y + int k)"
proof (induction k)
  case 0
  show ?case by simp
next
  case (Suc k)
  have "y + int (Suc k) = y + int k + 1" by simp
  then have "DayFromYear (y + int (Suc k)) = DayFromYear (y + int k + 1)" by (rule arg_cong)
  also have "\<dots> = DayFromYear (y + int k) + DaysInYear (y + int k)" by (rule DayFromYear_Suc)
  finally show ?case using Suc by (simp add: DaysInYear_def)
qed

lemma DayFromYear_mono: "y \<le> y' \<Longrightarrow> DayFromYear y \<le> DayFromYear y'"
proof -
  assume "y \<le> y'"
  then obtain k where "y' = y + int k" by (metis zle_iff_zadd)
  with DayFromYear_add[of y k] show ?thesis by simp
qed

lemma YearFromDay_unique:
  assumes "DayFromYear y \<le> n" "n < DayFromYear (y + 1)"
  shows "YearFromDay n = y"
proof (rule ccontr)
  assume ne: "YearFromDay n \<noteq> y"
  from YearFromDay_window[of n] have w: "DayFromYear (YearFromDay n) \<le> n"
    "n < DayFromYear (YearFromDay n + 1)" by simp_all
  show False
  proof (cases "YearFromDay n < y")
    case True
    then have "YearFromDay n + 1 \<le> y" by simp
    from DayFromYear_mono[OF this] w(2) assms(1) show False by simp
  next
    case False
    with ne have "y + 1 \<le> YearFromDay n" by simp
    from DayFromYear_mono[OF this] w(1) assms(2) show False by simp
  qed
qed

lemma month_cases:
  fixes m :: int
  assumes "1 \<le> m" "m \<le> 12"
  obtains "m = 1" | "m = 2" | "m = 3" | "m = 4" | "m = 5" | "m = 6" | "m = 7" | "m = 8"
    | "m = 9" | "m = 10" | "m = 11" | "m = 12"
proof -
  from assms have "m = 1 \<or> m = 2 \<or> m = 3 \<or> m = 4 \<or> m = 5 \<or> m = 6 \<or> m = 7 \<or> m = 8
      \<or> m = 9 \<or> m = 10 \<or> m = 11 \<or> m = 12"
    by arith
  with that show thesis by blast
qed

lemma MakeDay_valid:
  assumes "valid_date y m d"
  shows "MakeDay y (m - 1) d = DayFromYear y + month_start (InLeapYear y) (m - 1) + d - 1"
proof -
  from assms have "0 \<le> m - 1" "m - 1 < 12" by (simp_all add: valid_date_def)
  then have "(m - 1) div 12 = 0" "(m - 1) mod 12 = m - 1" by simp_all
  then show ?thesis by (simp add: MakeDay_def Let_def)
qed

lemma day_in_year_bounds:
  assumes "valid_date y m d"
  shows "month_start (InLeapYear y) (m - 1) \<le> month_start (InLeapYear y) (m - 1) + d - 1"
    and "month_start (InLeapYear y) (m - 1) + d - 1 < (if m = 12 then DaysInYear y else month_start (InLeapYear y) m)"
    and "0 \<le> month_start (InLeapYear y) (m - 1)"
    and "m < 12 \<Longrightarrow> month_start (InLeapYear y) m \<le> DaysInYear y"
proof -
  from assms have m: "1 \<le> m" "m \<le> 12" and d: "1 \<le> d" "d \<le> days_in_month y m"
    by (simp_all add: valid_date_def)
  show "month_start (InLeapYear y) (m - 1) \<le> month_start (InLeapYear y) (m - 1) + d - 1"
    using d by simp
  show "month_start (InLeapYear y) (m - 1) + d - 1 < (if m = 12 then DaysInYear y else month_start (InLeapYear y) m)"
    using m
  proof (cases rule: month_cases)
  qed (use d in \<open>auto simp add: month_start_def days_in_month_def DaysInYear_def split: if_splits\<close>)
  show "0 \<le> month_start (InLeapYear y) (m - 1)"
    by (simp add: month_start_def)
  show "m < 12 \<Longrightarrow> month_start (InLeapYear y) m \<le> DaysInYear y"
    by (simp add: month_start_def DaysInYear_def)
qed

lemma month_from_bounds:
  assumes "0 \<le> j" "j \<le> 11" "month_start L j \<le> k" "j < 11 \<Longrightarrow> k < month_start L (j + 1)"
  shows "(if k < month_start L 1 then 0 else if k < month_start L 2 then 1
         else if k < month_start L 3 then 2 else if k < month_start L 4 then 3
         else if k < month_start L 5 then 4 else if k < month_start L 6 then 5
         else if k < month_start L 7 then 6 else if k < month_start L 8 then 7
         else if k < month_start L 9 then 8 else if k < month_start L 10 then 9
         else if k < month_start L 11 then 10 else 11) = j"
proof -
  from assms(1,2) have "1 \<le> j + 1" "j + 1 \<le> 12" by simp_all
  then show ?thesis
  proof (cases rule: month_cases)
  qed (use assms(3,4) in \<open>cases L; simp add: month_start_def\<close>)+
qed

lemma civil_of_MakeDay:
  assumes v: "valid_date y m d"
  shows "YearFromDay (MakeDay y (m - 1) d) = y"
    and "MonthFromDay (MakeDay y (m - 1) d) = m - 1"
    and "DateFromDay (MakeDay y (m - 1) d) = d"
proof -
  define k where "k = month_start (InLeapYear y) (m - 1) + d - 1"
  have n: "MakeDay y (m - 1) d = DayFromYear y + k"
    using MakeDay_valid[OF v] by (simp add: k_def)
  from v have m: "1 \<le> m" "m \<le> 12" by (simp_all add: valid_date_def)
  have k0: "0 \<le> k" using day_in_year_bounds(1,3)[OF v] by (simp add: k_def)
  have k1: "k < DaysInYear y"
    using day_in_year_bounds(2,4)[OF v] m by (cases "m = 12") (simp_all add: k_def)
  have "DayFromYear y \<le> DayFromYear y + k" using k0 by simp
  moreover have "DayFromYear y + k < DayFromYear (y + 1)"
    using k1 by (simp add: DayFromYear_Suc)
  ultimately have yr: "YearFromDay (DayFromYear y + k) = y" by (rule YearFromDay_unique)
  then show "YearFromDay (MakeDay y (m - 1) d) = y" by (simp add: n)
  have dw: "DayWithinYear (DayFromYear y + k) = k" by (simp add: DayWithinYear_def yr)
  from v have d: "1 \<le> d" "d \<le> days_in_month y m" by (simp_all add: valid_date_def)
  have lo: "month_start (InLeapYear y) (m - 1) \<le> k"
    using day_in_year_bounds(1)[OF v] by (simp add: k_def)
  have hi: "m - 1 < 11 \<Longrightarrow> k < month_start (InLeapYear y) (m - 1 + 1)"
    using day_in_year_bounds(2)[OF v] by (simp add: k_def)
  have mo: "MonthFromDay (DayFromYear y + k) = m - 1"
    unfolding MonthFromDay_def Let_def dw yr
    by (rule month_from_bounds[OF _ _ lo hi]) (use m in simp_all)
  then show "MonthFromDay (MakeDay y (m - 1) d) = m - 1" by (simp add: n)
  show "DateFromDay (MakeDay y (m - 1) d) = d"
    unfolding n DateFromDay_def dw yr mo by (simp add: k_def)
qed

lemma MakeDay_before: "MakeDay y m (dt - 1) = MakeDay y m dt - 1"
  by (simp add: MakeDay_def Let_def)

lemma previous_day_MakeDay:
  assumes v: "valid_date y m d"
  shows "case previous_day (y, m, d) of
           (y', m', d') \<Rightarrow> valid_date y' m' d' \<and> MakeDay y' (m' - 1) d' = MakeDay y (m - 1) d - 1"
proof (cases "1 < d")
  case True
  with v have "valid_date y m (d - 1)" by (simp add: valid_date_def)
  with True show ?thesis by (simp add: previous_day_def MakeDay_before)
next
  case False
  with v have d: "d = 1" by (simp add: valid_date_def)
  from v have m: "1 \<le> m" "m \<le> 12" by (simp_all add: valid_date_def)
  show ?thesis
  proof (cases "1 < m")
    case True
    have v': "valid_date y (m - 1) (days_in_month y (m - 1))"
      using m True by (auto simp add: valid_date_def days_in_month_def)
    have "month_start (InLeapYear y) (m - 1 - 1) + days_in_month y (m - 1)
            = month_start (InLeapYear y) (m - 1)"
      using m
    proof (cases rule: month_cases)
    qed (use True in \<open>auto simp add: month_start_def days_in_month_def\<close>)
    then have "MakeDay y (m - 1 - 1) (days_in_month y (m - 1)) = MakeDay y (m - 1) d - 1"
      using MakeDay_valid[OF v] MakeDay_valid[OF v'] d by simp
    with v' True d show ?thesis by (simp add: previous_day_def)
  next
    case False
    with m have m1: "m = 1" by simp
    have v': "valid_date (y - 1) 12 31" by (simp add: valid_date_def days_in_month_def)
    have "DayFromYear (y - 1 + 1) = DayFromYear (y - 1) + DaysInYear (y - 1)"
      by (rule DayFromYear_Suc)
    then have "DayFromYear y = DayFromYear (y - 1) + DaysInYear (y - 1)" by simp
    then have "MakeDay (y - 1) (12 - 1) 31 = MakeDay y (m - 1) d - 1"
      using MakeDay_valid[OF v] MakeDay_valid[OF v'] d m1
      by (simp add: month_start_def DaysInYear_def)
    with v' d m1 show ?thesis by (simp add: previous_day_def)
  qed
qed

lemma NIGHT_SHIFT_ROLLOVER_HOUR_range:
  "0 \<le> NIGHT_SHIFT_ROLLOVER_HOUR e \<and> NIGHT_SHIFT_ROLLOVER_HOUR e \<le> 23"
  by (cases e) (simp_all add: NIGHT_SHIFT_ROLLOVER_HOUR_def)

lemma NIGHT_SHIFT_ROLLOVER_HOUR_zero: "NIGHT_SHIFT_ROLLOVER_HOUR (Finite 0) = 4"
  by (simp add: NIGHT_SHIFT_ROLLOVER_HOUR_def)

lemma shifted_date:
  assumes v: "valid_date y m d" and c: "\<not> (0 \<le> y \<and> y \<le> 99)"
  shows "(let utcDate = Date_UTC y (m - 1) d;
              utcDate' = setUTCDate utcDate (DateFromDay utcDate - 1)
          in (YearFromDay utcDate', MonthFromDay utcDate' + 1, DateFromDay utcDate'))
         = previous_day (y, m, d)"
proof -
  obtain y' m' d' where p: "previous_day (y, m, d) = (y', m', d')" by (cases "previous_day (y, m, d)")
  from previous_day_MakeDay[OF v] p have v': "valid_date y' m' d'"
    and e: "MakeDay y' (m' - 1) d' = MakeDay y (m - 1) d - 1" by simp_all
  have u: "Date_UTC y (m - 1) d = MakeDay y (m - 1) d"
    unfolding Date_UTC_def using c by (simp only: if_False simp_thms)
  have s: "setUTCDate (MakeDay y (m - 1) d) (DateFromDay (MakeDay y (m - 1) d) - 1)
            = MakeDay y' (m' - 1) d'"
    by (simp add: setUTCDate_def civil_of_MakeDay[OF v] MakeDay_before e)
  show ?thesis
    unfolding Let_def u s p by (simp add: civil_of_MakeDay[OF v'])
qed

text \<open>
  What \<^verbatim>\<open>formatDate\<close> returns for date parts that form a calendar date (of a year outside 0..99,
  which \<^verbatim>\<open>Date.UTC\<close> reads as 1900 plus the year): the text of that date, or of the day before
  exactly when the hour is strictly less than the rollover hour in use, which is the constant
  \<^verbatim>\<open>NIGHT_SHIFT_ROLLOVER_HOUR\<close> or a passed rollover hour within 0..23.
\<close>

lemma formatDate_rollover_in_use:
  assumes "valid_date y m d" "\<not> (0 \<le> y \<and> y \<le> 99)"
  shows "formatDate envNumber \<lparr> part_year = y, part_month = m, part_day = d, part_hour = h \<rparr> None
           = date_text (if of_int h < NIGHT_SHIFT_ROLLOVER_HOUR envNumber then previous_day (y, m, d)
                        else (y, m, d))"
    and "0 \<le> r \<Longrightarrow> r \<le> 23 \<Longrightarrow>
            formatDate envNumber \<lparr> part_year = y, part_month = m, part_day = d, part_hour = h \<rparr>
                (Some (Number (Finite r)))
              = date_text (if of_int h < r then previous_day (y, m, d) else (y, m, d))"
proof -
  have gen: "formatDate e \<lparr> part_year = y, part_month = m, part_day = d, part_hour = k \<rparr>
                (Some (Number (Finite r)))
              = date_text (if of_int k < r then previous_day (y, m, d) else (y, m, d))"
    if "0 \<le> r" "r \<le> 23" for e k r
    using that shifted_date[OF assms]
    by (simp add: formatDate_def rollover_applies_def Let_def)
  have dflt: "formatDate e \<lparr> part_year = y, part_month = m, part_day = d, part_hour = k \<rparr> None
              = formatDate e \<lparr> part_year = y, part_month = m, part_day = d, part_hour = k \<rparr>
                  (Some (Number (Finite (NIGHT_SHIFT_ROLLOVER_HOUR e))))" for e k
    by (simp add: formatDate_def)
  have r: "0 \<le> NIGHT_SHIFT_ROLLOVER_HOUR e" "NIGHT_SHIFT_ROLLOVER_HOUR e \<le> 23" for e
    using NIGHT_SHIFT_ROLLOVER_HOUR_range[of e] by simp_all
  show "formatDate envNumber \<lparr> part_year = y, part_month = m, part_day = d, part_hour = h \<rparr> None
           = date_text (if of_int h < NIGHT_SHIFT_ROLLOVER_HOUR envNumber then previous_day (y, m, d)
                        else (y, m, d))"
    unfolding dflt by (rule gen[OF r])
  show "0 \<le> r \<Longrightarrow> r \<le> 23 \<Longrightarrow>
            formatDate envNumber \<lparr> part_year = y, part_month = m, part_day = d, part_hour = h \<rparr>
                (Some (Number (Finite r)))
              = date_text (if of_int h < r then previous_day (y, m, d) else (y, m, d))"
    by (rule gen)
qed

text \<open>
  The constant is the configured hour when that is a number within 0..23 other than 0; for
  those hours \<^verbatim>\<open>formatDate\<close> returns the logical date as stated.
\<close>

lemma NIGHT_SHIFT_ROLLOVER_HOUR_configured:
  "0 < r \<Longrightarrow> r \<le> 23 \<Longrightarrow> NIGHT_SHIFT_ROLLOVER_HOUR (Finite r) = r"
  by (simp add: NIGHT_SHIFT_ROLLOVER_HOUR_def)

lemma formatDate_configured:
  assumes "valid_date y m d" "\<not> (0 \<le> y \<and> y \<le> 99)" "0 < r" "r \<le> 23"
  shows "formatDate (Finite r) \<lparr> part_year = y, part_month = m, part_day = d, part_hour = h \<rparr> None
           = stated_logical_date r \<lparr> part_year = y, part_month = m, part_day = d, part_hour = h \<rparr>"
  unfolding formatDate_rollover_in_use(1)[OF assms(1,2)] NIGHT_SHIFT_ROLLOVER_HOUR_configured[OF assms(3,4)]
  by (simp add: stated_logical_date_def)

text \<open>
  C3. With the rollover hour configured as 0, a value of the documented range 0..23, no hour is
  strictly less than the rollover hour, and the logical date of 02:00 on 1 March 2024 is
  stated to be that day. The constant is read through \<^verbatim>\<open>Number(...) || 4\<close>, which turns the
  configured 0 into 4 before the range check \<^verbatim>\<open>parsedRolloverHour >= 0\<close> is made, and
  \<^verbatim>\<open>formatDate\<close> returns the day before, 29 February 2024. With 2 configured the constant is 2
  and the same instant keeps its date, as stated.
\<close>

theorem formatDate_rollover_zero:
  "NIGHT_SHIFT_ROLLOVER_HOUR (Finite 0) = 4 \<and>
   formatDate (Finite 0) \<lparr> part_year = 2024, part_month = 3, part_day = 1, part_hour = 2 \<rparr> None
     = ''2024-02-29'' \<and>
   stated_logical_date 0 \<lparr> part_year = 2024, part_month = 3, part_day = 1, part_hour = 2 \<rparr>
     = ''2024-03-01'' \<and>
   NIGHT_SHIFT_ROLLOVER_HOUR (Finite 2) = 2 \<and>
   formatDate (Finite 2) \<lparr> part_year = 2024, part_month = 3, part_day = 1, part_hour = 2 \<rparr> None
     = ''2024-03-01'' \<and>
   stated_logical_date 2 \<lparr> part_year = 2024, part_month = 3, part_day = 1, part_hour = 2 \<rparr>
     = ''2024-03-01''"
proof -
  have v: "valid_date 2024 3 1"
    by (simp add: valid_date_def days_in_month_def)
  have c: "\<not> (0 \<le> (2024::int) \<and> (2024::int) \<le> 99)"
    by simp
  have p: "previous_day (2024, 3, 1) = (2024, 2, 29)"
    by (simp add: previous_day_def days_in_month_def InLeapYear_def)
  have t: "date_text (2024, 2, 29) = ''2024-02-29''" "date_text (2024, 3, 1) = ''2024-03-01''"
    by (simp_all add: date_text_def show_int_def pad2_def Let_def)
  have f: "formatDate (Finite 0) \<lparr> part_year = 2024, part_month = 3, part_day = 1, part_hour = 2 \<rparr> None
     = ''2024-02-29''"
    unfolding formatDate_rollover_in_use(1)[OF v c] NIGHT_SHIFT_ROLLOVER_HOUR_zero
    by (simp add: p t)
  have s: "stated_logical_date 0 \<lparr> part_year = 2024, part_month = 3, part_day = 1, part_hour = 2 \<rparr>
     = ''2024-03-01''"
    by (simp add: stated_logical_date_def t)
  have two: "NIGHT_SHIFT_ROLLOVER_HOUR (Finite 2) = 2"
    by (simp add: NIGHT_SHIFT_ROLLOVER_HOUR_def)
  have f2: "formatDate (Finite 2) \<lparr> part_year = 2024, part_month = 3, part_day = 1, part_hour = 2 \<rparr> None
     = ''2024-03-01''"
    unfolding formatDate_rollover_in_use(1)[OF v c] two
    by (simp add: t)
  have s2: "stated_logical_date 2 \<lparr> part_year = 2024, part_month = 3, part_day = 1, part_hour = 2 \<rparr>
     = ''2024-03-01''"
    by (simp add: stated_logical_date_def t)
  from NIGHT_SHIFT_ROLLOVER_HOUR_zero f s two f2 s2 show ?thesis by (intro conjI)
qed

end
